theory Spec2Isabelle
  imports Complex_Main "HOL-Library.Multiset" "HOL-Library.Sublist"
begin

section \<open>Numbers\<close>

text \<open>
  The calculator works on JavaScript numbers. Trade quantities, notionals and
  timestamps are read from the trade history and are finite; they are modelled
  as exact rationals (\<open>rat\<close>) and integers (\<open>int\<close>, seconds). The rounding error
  of binary floating point is not modelled: arithmetic is exact.

  A value that is computed with a division, or from the result of one, can be
  non-finite (\<open>usdcSize / size\<close> with \<open>size = 0\<close>). Such values have type
  \<open>jsnum\<close>, which adds the three non-finite numbers with their arithmetic.
\<close>

datatype jsnum = Fin rat | PInf | NInf | NaN

fun jsdiv :: "rat \<Rightarrow> rat \<Rightarrow> jsnum" where
  "jsdiv a b =
     (if b \<noteq> 0 then Fin (a / b)
      else if a = 0 then NaN
      else if 0 < a then PInf
      else NInf)"

fun jsneg :: "jsnum \<Rightarrow> jsnum" where
  "jsneg (Fin a) = Fin (- a)"
| "jsneg PInf = NInf"
| "jsneg NInf = PInf"
| "jsneg NaN = NaN"

fun jsadd :: "jsnum \<Rightarrow> jsnum \<Rightarrow> jsnum" where
  "jsadd (Fin a) (Fin b) = Fin (a + b)"
| "jsadd NaN _ = NaN"
| "jsadd _ NaN = NaN"
| "jsadd PInf NInf = NaN"
| "jsadd NInf PInf = NaN"
| "jsadd PInf _ = PInf"
| "jsadd _ PInf = PInf"
| "jsadd NInf _ = NInf"
| "jsadd _ NInf = NInf"

definition jssub :: "jsnum \<Rightarrow> jsnum \<Rightarrow> jsnum" where
  "jssub a b = jsadd a (jsneg b)"

fun jssign :: "jsnum \<Rightarrow> int" where
  "jssign (Fin a) = (if a = 0 then 0 else if 0 < a then 1 else - 1)"
| "jssign PInf = 1"
| "jssign NInf = - 1"
| "jssign NaN = 0"

fun jsmul :: "jsnum \<Rightarrow> jsnum \<Rightarrow> jsnum" where
  "jsmul (Fin a) (Fin b) = Fin (a * b)"
| "jsmul NaN _ = NaN"
| "jsmul _ NaN = NaN"
| "jsmul a b =
     (if jssign a * jssign b = 0 then NaN
      else if 0 < jssign a * jssign b then PInf
      else NInf)"

text \<open>\<open>Math.round\<close>: the nearest integer, a tie going towards plus infinity.\<close>

definition math_round :: "rat \<Rightarrow> int" where
  "math_round x = \<lfloor>x + 1 / 2\<rfloor>"

text \<open>\<open>round(num, decimals = 2)\<close>:
  \<open>Math.round(num * Math.pow(10, decimals)) / Math.pow(10, decimals)\<close>.\<close>

fun round2 :: "jsnum \<Rightarrow> jsnum" where
  "round2 (Fin x) = Fin (of_int (math_round (x * 100)) / 100)"
| "round2 PInf = PInf"
| "round2 NInf = NInf"
| "round2 NaN = NaN"

text \<open>\<open>a || b\<close> on numbers: zero and NaN are falsy.\<close>

fun truthy :: "jsnum \<Rightarrow> bool" where
  "truthy (Fin x) = (x \<noteq> 0)"
| "truthy NaN = False"
| "truthy PInf = True"
| "truthy NInf = True"

definition jsor :: "jsnum \<Rightarrow> jsnum \<Rightarrow> jsnum" where
  "jsor a b = (if truthy a then a else b)"

text \<open>\<open>sumBy(arr, key)\<close>:
  \<open>arr.reduce((sum, item) => sum + (item[key] || 0), 0)\<close>.
  \<open>sumBy\<close> is the instance for a field that may be non-finite, \<open>sumByRat\<close>
  the one for a field that is finite by its type (there \<open>x || 0\<close> is \<open>x\<close>).\<close>

definition sumBy :: "'a list \<Rightarrow> ('a \<Rightarrow> jsnum) \<Rightarrow> jsnum" where
  "sumBy arr key = foldl (\<lambda>sum item. jsadd sum (jsor (key item) (Fin 0))) (Fin 0) arr"

definition sumByRat :: "'a list \<Rightarrow> ('a \<Rightarrow> rat) \<Rightarrow> rat" where
  "sumByRat arr key =
     foldl (\<lambda>sum item. sum + (if key item = 0 then 0 else key item)) 0 arr"

section \<open>Strings and dates\<close>

text \<open>
  Strings are lists of characters, one \<open>char\<close> for each character of the
  JavaScript string. \<open>toUpperCase\<close> is modelled on the ASCII letters; every
  other character is left as it is.
\<close>

definition toUpperChar :: "char \<Rightarrow> char" where
  "toUpperChar c =
     (if 97 \<le> (of_char c :: nat) \<and> (of_char c :: nat) \<le> 122
      then char_of ((of_char c :: nat) - 32) else c)"

definition toUpperCase :: "string \<Rightarrow> string" where
  "toUpperCase s = map toUpperChar s"

text \<open>The white space that \<open>trim\<close> removes, within ASCII: tab, line feed,
  vertical tab, form feed, carriage return and space.\<close>

definition isSpace :: "char \<Rightarrow> bool" where
  "isSpace c = ((of_char c :: nat) \<in> {9, 10, 11, 12, 13, 32})"

definition trim :: "string \<Rightarrow> string" where
  "trim s = rev (dropWhile isSpace (rev (dropWhile isSpace s)))"

text \<open>\<open>s.lastIndexOf(' ')\<close>: the index of the last space, \<open>-1\<close> when there is none.\<close>

fun lastIndexOf :: "string \<Rightarrow> char \<Rightarrow> int" where
  "lastIndexOf [] c = - 1"
| "lastIndexOf (x # xs) c =
     (let r = lastIndexOf xs c in
      if 0 \<le> r then r + 1 else if x = c then 0 else - 1)"

text \<open>\<open>truncate(str, maxLen)\<close>; the test \<open>lastSpace > maxLen * 0.5\<close> is written
  without the fraction.\<close>

definition truncate_s :: "string \<Rightarrow> nat \<Rightarrow> string" where
  "truncate_s str maxLen =
     (if str = [] \<or> length str \<le> maxLen then str
      else
        let cutPoint = int maxLen - 3;
            lastSpace = lastIndexOf (take (nat cutPoint) str) (CHR '' '');
            cutPoint = (if 2 * lastSpace > int maxLen then lastSpace else cutPoint)
        in trim (take (nat cutPoint) str) @ ''...'')"

definition digit_char :: "nat \<Rightarrow> char" where
  "digit_char d = char_of (48 + d)"

fun show_nat :: "nat \<Rightarrow> string" where
  "show_nat n = (if n < 10 then [digit_char n] else show_nat (n div 10) @ [digit_char (n mod 10)])"

declare show_nat.simps [simp del]

definition show_int :: "int \<Rightarrow> string" where
  "show_int i = (if i < 0 then CHR ''-'' # show_nat (nat (- i)) else show_nat (nat i))"

text \<open>\<open>s.padStart(2, '0')\<close>\<close>

definition padStart2 :: "string \<Rightarrow> string" where
  "padStart2 s = replicate (2 - length s) (CHR ''0'') @ s"

text \<open>
  \<open>Date\<close> is the host's. It is modelled for a host whose local time zone is UTC,
  in the proleptic Gregorian calendar: \<open>days_from_civil\<close> counts the days from
  1970-01-01 to a date, \<open>civil_from_days\<close> is its inverse.
\<close>

definition days_from_civil :: "int \<Rightarrow> int \<Rightarrow> int \<Rightarrow> int" where
  "days_from_civil y m d =
     (let y' = (if m \<le> 2 then y - 1 else y);
          era = y' div 400;
          yoe = y' - era * 400;
          doy = (153 * (if m > 2 then m - 3 else m + 9) + 2) div 5 + d - 1;
          doe = yoe * 365 + yoe div 4 - yoe div 100 + doy
      in era * 146097 + doe - 719468)"

definition civil_from_days :: "int \<Rightarrow> int \<times> int \<times> int" where
  "civil_from_days z0 =
     (let z = z0 + 719468;
          era = z div 146097;
          doe = z - era * 146097;
          yoe = (doe - doe div 1460 + doe div 36524 - doe div 146096) div 365;
          y = yoe + era * 400;
          doy = doe - (365 * yoe + yoe div 4 - yoe div 100);
          mp = (5 * doy + 2) div 153;
          d = doy - (153 * mp + 2) div 5 + 1;
          m = (if mp < 10 then mp + 3 else mp - 9)
      in (if m \<le> 2 then y + 1 else y, m, d))"

text \<open>
  \<open>new Date(taxYear, 11, 31, 23, 59, 59).getTime() / 1000\<close>, for a year that
  \<open>Date\<close> takes as it is and can represent: from 100 on (it reads 0 to 99 as
  1900 to 1999) and up to 275759. \<open>formatDate\<close> likewise is modelled for
  timestamps within the range of \<open>Date\<close>.
\<close>

definition taxYearEndOf :: "int \<Rightarrow> int" where
  "taxYearEndOf taxYear = days_from_civil taxYear 12 31 * 86400 + 23 * 3600 + 59 * 60 + 59"

definition formatDate :: "int \<Rightarrow> string" where
  "formatDate timestamp =
     (case civil_from_days (timestamp div 86400) of (year, month, day) \<Rightarrow>
        padStart2 (show_int month) @ ''/'' @ padStart2 (show_int day) @ ''/'' @ show_int year)"

section \<open>Data model (types.ts)\<close>

datatype TradeType = TRADE | REDEEM

text \<open>\<open>side\<close> is \<open>'BUY' | 'SELL'\<close>; \<open>NoSide\<close> stands for a record that carries
  neither (a redemption before it is normalized).\<close>

datatype Side = BUY | SELL | NoSide

record PolymarketTrade =
  timestamp :: int
  type :: TradeType
  side :: Side
  conditionId :: string
  outcome :: string
  size_t :: rat
  usdcSize :: rat
  price :: jsnum
  transactionHash :: string
  title :: string

record Token =
  tokenOutcome :: string
  winner :: bool
  tokenPrice :: rat

record MarketData =
  question :: string
  closed_m :: bool
  condition_id :: string
  tokens :: "Token list"

record Form8949Entry =
  description :: string
  dateAcquired :: string
  dateSold :: string
  proceeds :: jsnum
  costBasis :: jsnum
  gainLoss :: jsnum
  isLongTerm :: bool
  holdingDays :: int

record InventoryLot =
  acquisitionDate :: int
  quantity :: rat
  costBasisPerToken :: jsnum
  totalCostBasis :: rat
  marketTitle :: string
  lotTransactionHash :: string
  lotOutcome :: string

record OpenPosition =
  positionKey :: string
  posConditionId :: string
  posOutcome :: string
  posQuantity :: rat
  posCostBasis :: rat
  lots :: "InventoryLot list"
  posTitle :: string

record Summary =
  count_s :: nat
  totalProceeds :: jsnum
  totalCostBasis_sum :: jsnum
  totalGainLoss_sum :: jsnum

record TaxReport =
  shortTerm :: "Form8949Entry list"
  longTerm :: "Form8949Entry list"
  shortTermSummary :: Summary
  longTermSummary :: Summary
  totalTransactions :: nat
  totalGainLoss :: jsnum
  warnings :: "string list"
  openPositions :: "OpenPosition list"

text \<open>
  What the calculator takes from its host: the conversion of a number to a string
  inside a template literal, and \<open>fetchMarket\<close> of api.ts (a network request;
  \<open>None\<close> when the market cannot be fetched).
\<close>

record Host =
  numberToString :: "rat \<Rightarrow> string"
  fetchMarket :: "string \<Rightarrow> MarketData option"

text \<open>\<open>fetchMarketsBatch(conditionIds)\<close>: the map holding the fetched market of
  every requested identifier that could be fetched.\<close>

definition fetchMarketsBatch :: "Host \<Rightarrow> string list \<Rightarrow> string \<Rightarrow> MarketData option" where
  "fetchMarketsBatch host conditionIds =
     (\<lambda>cid. if cid \<in> set conditionIds then fetchMarket host cid else None)"

section \<open>The calculator (calculator.ts)\<close>

definition LONG_TERM_DAYS :: int where
  "LONG_TERM_DAYS = 365"

definition epsilon :: rat where
  "epsilon = 1 / 10000"

definition normalizeTrade :: "PolymarketTrade \<Rightarrow> PolymarketTrade option" where
  "normalizeTrade trade =
     (if conditionId trade = [] \<or> outcome trade = [] then None
      else if type trade = REDEEM then
        Some (trade\<lparr>side := SELL, usdcSize := size_t trade * 1, price := Fin 1\<rparr>)
      else
        Some (trade\<lparr>price := jsor (price trade) (jsdiv (usdcSize trade) (size_t trade))\<rparr>))"

text \<open>
  The inventory is a \<open>Map\<close> from position key to an array of lots. A \<open>Map\<close>
  iterates in the order its keys were first set, so it is an association list
  with distinct keys: \<open>inv_set\<close> replaces the value of a key in place and puts a
  new key at the end.
\<close>

type_synonym Inventory = "(string \<times> InventoryLot list) list"

definition inv_get :: "Inventory \<Rightarrow> string \<Rightarrow> InventoryLot list option" where
  "inv_get inventory key = map_of inventory key"

fun inv_set :: "Inventory \<Rightarrow> string \<Rightarrow> InventoryLot list \<Rightarrow> Inventory" where
  "inv_set [] key v = [(key, v)]"
| "inv_set ((k, w) # inventory) key v =
     (if k = key then (key, v) # inventory else (k, w) # inv_set inventory key v)"

definition positionKeyOf :: "PolymarketTrade \<Rightarrow> string" where
  "positionKeyOf trade = conditionId trade @ ''-'' @ outcome trade"

definition newLot :: "PolymarketTrade \<Rightarrow> InventoryLot" where
  "newLot trade =
     \<lparr> acquisitionDate = timestamp trade,
       quantity = size_t trade,
       costBasisPerToken = jsdiv (usdcSize trade) (size_t trade),
       totalCostBasis = usdcSize trade,
       marketTitle = title trade,
       lotTransactionHash = transactionHash trade,
       lotOutcome = outcome trade \<rparr>"

definition addToInventory :: "Inventory \<Rightarrow> string \<Rightarrow> PolymarketTrade \<Rightarrow> Inventory" where
  "addToInventory inventory key trade =
     (let inventory1 = (if inv_get inventory key = None then inv_set inventory key [] else inventory);
          queue = (case inv_get inventory1 key of None \<Rightarrow> [] | Some q \<Rightarrow> q)
      in inv_set inventory1 key (queue @ [newLot trade]))"

definition entryDescription :: "string \<Rightarrow> string \<Rightarrow> string" where
  "entryDescription outc ttl = toUpperCase outc @ '' token - '' @ truncate_s ttl 55"

definition matchedEntry :: "PolymarketTrade \<Rightarrow> jsnum \<Rightarrow> InventoryLot \<Rightarrow> rat \<Rightarrow> Form8949Entry" where
  "matchedEntry trade proceedsPerToken lot qty =
     (let proceeds = jsmul (Fin qty) proceedsPerToken;
          costBasis = jsmul (Fin qty) (costBasisPerToken lot);
          gainLoss = jssub proceeds costBasis;
          holdingDays = (timestamp trade - acquisitionDate lot) div 86400
      in \<lparr> description = entryDescription (outcome trade) (title trade),
           dateAcquired = formatDate (acquisitionDate lot),
           dateSold = formatDate (timestamp trade),
           proceeds = round2 proceeds,
           costBasis = round2 costBasis,
           gainLoss = round2 gainLoss,
           isLongTerm = (holdingDays \<ge> LONG_TERM_DAYS),
           holdingDays = holdingDays \<rparr>)"

text \<open>
  The \<open>while\<close> loop of \<open>matchSellToBuys\<close>. It returns the entries it pushed, in
  order, with \<open>remaining\<close> and the queue as the loop leaves them.
\<close>

function matchLoop ::
  "PolymarketTrade \<Rightarrow> jsnum \<Rightarrow> rat \<Rightarrow> InventoryLot list
   \<Rightarrow> Form8949Entry list \<times> rat \<times> InventoryLot list" where
  "matchLoop trade proceedsPerToken remaining [] = ([], remaining, [])"
| "matchLoop trade proceedsPerToken remaining (lot # rest) =
     (if remaining > epsilon then
        (let qty = min remaining (quantity lot);
             entry = matchedEntry trade proceedsPerToken lot qty;
             lot' = lot\<lparr>quantity := quantity lot - qty\<rparr>;
             remaining' = remaining - qty;
             queue' = (if quantity lot' < epsilon then rest else lot' # rest)
         in case matchLoop trade proceedsPerToken remaining' queue' of
              (entries, r, q) \<Rightarrow> (entry # entries, r, q))
      else ([], remaining, lot # rest))"
  by pat_completeness auto
termination
  by (relation "measure (\<lambda>(trade, p, remaining, queue).
        2 * length queue + (if remaining > epsilon then 1 else 0))")
     (auto simp: epsilon_def min_def split: if_splits)

declare matchLoop.simps [simp del]

definition oversellEntry :: "PolymarketTrade \<Rightarrow> jsnum \<Rightarrow> rat \<Rightarrow> Form8949Entry" where
  "oversellEntry trade proceedsPerToken remaining =
     (let proceeds = jsmul (Fin remaining) proceedsPerToken
      in \<lparr> description = entryDescription (outcome trade) (title trade),
           dateAcquired = ''VARIOUS'',
           dateSold = formatDate (timestamp trade),
           proceeds = round2 proceeds,
           costBasis = Fin 0,
           gainLoss = round2 proceeds,
           isLongTerm = False,
           holdingDays = 0 \<rparr>)"

definition oversellWarning :: "Host \<Rightarrow> rat \<Rightarrow> string \<Rightarrow> string" where
  "oversellWarning host remaining key =
     ''Sold '' @ numberToString host remaining @ '' more shares than owned for '' @ key"

text \<open>\<open>matchSellToBuys\<close> returns \<open>newEntries\<close> and the optional \<open>warning\<close>; the
  inventory it has mutated (the queue of the key, when the key has one) is
  returned as the third component.\<close>

definition matchSellToBuys ::
  "Host \<Rightarrow> Inventory \<Rightarrow> string \<Rightarrow> PolymarketTrade
   \<Rightarrow> Form8949Entry list \<times> string option \<times> Inventory" where
  "matchSellToBuys host inventory key trade =
     (let queue = (case inv_get inventory key of None \<Rightarrow> [] | Some q \<Rightarrow> q);
          proceedsPerToken = jsdiv (usdcSize trade) (size_t trade)
      in case matchLoop trade proceedsPerToken (size_t trade) queue of
           (entries, remaining, queue') \<Rightarrow>
             (let inventory' = (case inv_get inventory key of
                                  None \<Rightarrow> inventory
                                | Some _ \<Rightarrow> inv_set inventory key queue')
              in if remaining > epsilon then
                   (entries @ [oversellEntry trade proceedsPerToken remaining],
                    Some (oversellWarning host remaining key), inventory')
                 else (entries, None, inventory')))"

text \<open>\<open>key.split('-')\<close> and \<open>parts.join('-')\<close>\<close>

fun split_on :: "char \<Rightarrow> string \<Rightarrow> string list" where
  "split_on c [] = [[]]"
| "split_on c (x # xs) =
     (if x = c then [] # split_on c xs
      else case split_on c xs of
             [] \<Rightarrow> [[x]]
           | w # ws \<Rightarrow> (x # w) # ws)"

fun join_with :: "char \<Rightarrow> string list \<Rightarrow> string" where
  "join_with c [] = []"
| "join_with c [w] = w"
| "join_with c (w # ws) = w @ [c] @ join_with c ws"

definition openPositionOf :: "string \<Rightarrow> InventoryLot list \<Rightarrow> OpenPosition" where
  "openPositionOf key ls =
     (let parts = split_on (CHR ''-'') key
      in \<lparr> positionKey = key,
           posConditionId = hd parts,
           posOutcome = join_with (CHR ''-'') (tl parts),
           posQuantity = sumByRat ls quantity,
           posCostBasis = sumByRat ls totalCostBasis,
           lots = ls,
           posTitle = marketTitle (hd ls) \<rparr>)"

fun collectOpenPositions :: "Inventory \<Rightarrow> OpenPosition list" where
  "collectOpenPositions [] = []"
| "collectOpenPositions ((key, ls) # inventory) =
     (if ls = [] then collectOpenPositions inventory
      else openPositionOf key ls # collectOpenPositions inventory)"

definition worthlessEntry :: "OpenPosition \<Rightarrow> int \<Rightarrow> InventoryLot \<Rightarrow> Form8949Entry" where
  "worthlessEntry position taxYearEnd lot =
     (let holdingDays = (taxYearEnd - acquisitionDate lot) div 86400
      in \<lparr> description = entryDescription (posOutcome position) (posTitle position),
           dateAcquired = formatDate (acquisitionDate lot),
           dateSold = formatDate taxYearEnd,
           proceeds = Fin 0,
           costBasis = round2 (jsmul (Fin (quantity lot)) (costBasisPerToken lot)),
           gainLoss = jsneg (round2 (jsmul (Fin (quantity lot)) (costBasisPerToken lot))),
           isLongTerm = (holdingDays \<ge> LONG_TERM_DAYS),
           holdingDays = holdingDays \<rparr>)"

text \<open>The body of the loop over the positions, for one position.\<close>

definition worthlessEntriesOf ::
  "(string \<Rightarrow> MarketData option) \<Rightarrow> int \<Rightarrow> OpenPosition \<Rightarrow> Form8949Entry list" where
  "worthlessEntriesOf marketMap taxYearEnd position =
     (case marketMap (posConditionId position) of
        None \<Rightarrow> []
      | Some market \<Rightarrow>
          if \<not> closed_m market then []
          else case find winner (tokens market) of
                 None \<Rightarrow> []
               | Some w \<Rightarrow>
                   if toUpperCase (posOutcome position) \<noteq> toUpperCase (tokenOutcome w)
                   then map (worthlessEntry position taxYearEnd) (lots position)
                   else [])"

definition processWorthlessPositions ::
  "Host \<Rightarrow> OpenPosition list \<Rightarrow> int \<Rightarrow> Form8949Entry list" where
  "processWorthlessPositions host positions taxYearEnd =
     (let conditionIds = map posConditionId positions;
          marketMap = fetchMarketsBatch host conditionIds
      in concat (map (worthlessEntriesOf marketMap taxYearEnd) positions))"

definition calculateSummary :: "Form8949Entry list \<Rightarrow> Summary" where
  "calculateSummary entries =
     \<lparr> count_s = length entries,
       totalProceeds = round2 (sumBy entries proceeds),
       totalCostBasis_sum = round2 (sumBy entries costBasis),
       totalGainLoss_sum = round2 (sumBy entries gainLoss) \<rparr>"

text \<open>The state of the loop over the normalized trades: the inventory, the
  entries and the warnings pushed so far.\<close>

type_synonym EngineState = "Inventory \<times> Form8949Entry list \<times> string list"

definition processTrade :: "Host \<Rightarrow> EngineState \<Rightarrow> PolymarketTrade \<Rightarrow> EngineState" where
  "processTrade host st trade =
     (case st of (inventory, entries, warns) \<Rightarrow>
        let key = positionKeyOf trade
        in if side trade = BUY then (addToInventory inventory key trade, entries, warns)
           else if side trade = SELL then
             (case matchSellToBuys host inventory key trade of
                (newEntries, warning, inventory') \<Rightarrow>
                  (inventory', entries @ newEntries,
                   (case warning of None \<Rightarrow> warns | Some w \<Rightarrow> warns @ [w])))
           else st)"

definition normalizeAll :: "PolymarketTrade list \<Rightarrow> PolymarketTrade list" where
  "normalizeAll trades = sort_key timestamp (List.map_filter normalizeTrade trades)"

definition runEngine :: "Host \<Rightarrow> PolymarketTrade list \<Rightarrow> EngineState" where
  "runEngine host normalized = foldl (processTrade host) ([], [], []) normalized"

definition generateTaxReport :: "Host \<Rightarrow> PolymarketTrade list \<Rightarrow> int \<Rightarrow> TaxReport" where
  "generateTaxReport host trades taxYear =
     (let taxYearEnd = taxYearEndOf taxYear;
          normalized = normalizeAll trades
      in case runEngine host normalized of
           (inventory, entries0, warns) \<Rightarrow>
             let openPos = collectOpenPositions inventory;
                 entries = (if openPos \<noteq> []
                            then entries0 @ processWorthlessPositions host openPos taxYearEnd
                            else entries0);
                 shortT = filter (\<lambda>e. \<not> isLongTerm e) entries;
                 longT = filter isLongTerm entries
             in \<lparr> shortTerm = shortT,
                  longTerm = longT,
                  shortTermSummary = calculateSummary shortT,
                  longTermSummary = calculateSummary longT,
                  totalTransactions = length entries,
                  totalGainLoss = round2 (sumBy entries gainLoss),
                  warnings = warns,
                  openPositions = openPos \<rparr>)"

text \<open>The array \<open>entries\<close> of \<open>generateTaxReport\<close> when it is partitioned: the
  entries of the matching engine, then those of \<open>processWorthlessPositions\<close>
  (which are none when there is no open position).\<close>

definition reportEntries :: "Host \<Rightarrow> PolymarketTrade list \<Rightarrow> int \<Rightarrow> Form8949Entry list" where
  "reportEntries host trades taxYear =
     (case runEngine host (normalizeAll trades) of
        (inventory, entries0, warns) \<Rightarrow>
          entries0 @ processWorthlessPositions host (collectOpenPositions inventory)
                       (taxYearEndOf taxYear))"

section \<open>Definitions that follow the specification\<close>

text \<open>
  The matching plan in the specification's words: walk down the queue from its
  head, one lot after the other; at each lot take
  \<open>matchedQty = min(remaining, lot.remainingQuantity)\<close> and decrement
  \<open>remaining\<close> by it; stop once \<open>remaining\<close> is at or below epsilon or the queue
  is used up. The argument is the list of the lots' remaining quantities, the
  result the list of matched quantities.
\<close>

fun spec_fifoPlan :: "rat \<Rightarrow> rat list \<Rightarrow> rat list" where
  "spec_fifoPlan remaining [] = []"
| "spec_fifoPlan remaining (q # qs) =
     (if remaining > epsilon
      then min remaining q # spec_fifoPlan (remaining - min remaining q) qs
      else [])"

text \<open>
  The queue a plan leaves behind: the lots the plan reached are gone, except
  the last of them when it keeps at least epsilon, which stays at the head
  with its quantity decremented; the lots behind are untouched.
\<close>

definition residualQueue :: "InventoryLot list \<Rightarrow> rat list \<Rightarrow> InventoryLot list" where
  "residualQueue queue plan =
     (let n = length plan
      in (if 0 < n \<and> \<not> quantity (queue ! (n - 1)) - plan ! (n - 1) < epsilon
          then [(queue ! (n - 1))\<lparr>quantity := quantity (queue ! (n - 1)) - plan ! (n - 1)\<rparr>]
          else [])
         @ drop n queue)"

text \<open>
  A worthless position in the specification's words: its market is reported
  closed with a determined winning outcome (the outcome of the first token
  marked as winner), and the position's outcome differs from it, compared
  without regard to case.
\<close>

definition spec_isWorthless :: "Host \<Rightarrow> OpenPosition \<Rightarrow> bool" where
  "spec_isWorthless host position =
     (case fetchMarket host (posConditionId position) of
        None \<Rightarrow> False
      | Some market \<Rightarrow>
          closed_m market \<and>
          (case find winner (tokens market) of
             None \<Rightarrow> False
           | Some w \<Rightarrow> toUpperCase (posOutcome position) \<noteq> toUpperCase (tokenOutcome w)))"

text \<open>The value of a field in a sum of \<open>sumBy\<close>: NaN counts as zero.\<close>

fun valueOrZero :: "jsnum \<Rightarrow> rat" where
  "valueOrZero (Fin r) = r"
| "valueOrZero x = 0"

text \<open>Rounding to two decimals, half away from zero, in the specification's
  words.\<close>

definition spec_roundHalfAway2 :: "rat \<Rightarrow> rat" where
  "spec_roundHalfAway2 x = sgn x * of_int \<lfloor>\<bar>x\<bar> * 100 + 1 / 2\<rfloor> / 100"

section \<open>Invariants\<close>

text \<open>A queue is in acquisition order, and none of its lots was acquired after
  \<open>bound\<close>.\<close>

definition lotsOrdered :: "int \<Rightarrow> InventoryLot list \<Rightarrow> bool" where
  "lotsOrdered bound q =
     (sorted (map acquisitionDate q) \<and> list_all (\<lambda>l. acquisitionDate l \<le> bound) q)"

definition queuesOrdered :: "int \<Rightarrow> Inventory \<Rightarrow> bool" where
  "queuesOrdered bound inventory = list_all (\<lambda>(k, q). lotsOrdered bound q) inventory"

fun isFin :: "jsnum \<Rightarrow> bool" where
  "isFin (Fin r) = True"
| "isFin x = False"

text \<open>The number is a whole number of cents, or NaN.\<close>

fun isCents :: "jsnum \<Rightarrow> bool" where
  "isCents (Fin r) = (of_int \<lfloor>r * 100\<rfloor> = r * 100)"
| "isCents NaN = True"
| "isCents x = False"

definition entryCents :: "Form8949Entry \<Rightarrow> bool" where
  "entryCents e = (isCents (proceeds e) \<and> isCents (costBasis e) \<and> isCents (gainLoss e))"

text \<open>A lot whose unit cost is not finite has quantity 0 (it comes from a buy
  of quantity 0).\<close>

definition lotSound :: "InventoryLot \<Rightarrow> bool" where
  "lotSound lot = (isFin (costBasisPerToken lot) \<or> quantity lot = 0)"

definition inventorySound :: "Inventory \<Rightarrow> bool" where
  "inventorySound inventory = list_all (\<lambda>(k, q). list_all lotSound q) inventory"

text \<open>The two shapes of an entry: the gain or loss is the rounded difference of
  the unrounded proceeds and cost basis (matched and oversell entries), or
  the proceeds are zero and the gain or loss is minus the stored cost basis
  (write-offs).\<close>

definition differenceShape :: "Form8949Entry \<Rightarrow> bool" where
  "differenceShape e =
     (\<exists>A B. proceeds e = round2 A \<and> costBasis e = round2 B \<and> gainLoss e = round2 (jssub A B))"

definition writeOffShape :: "Form8949Entry \<Rightarrow> bool" where
  "writeOffShape e = (proceeds e = Fin 0 \<and> gainLoss e = jsneg (costBasis e))"

definition entryOk :: "Form8949Entry \<Rightarrow> bool" where
  "entryOk e = (entryCents e \<and> (differenceShape e \<or> writeOffShape e))"

section \<open>The balance of quantities\<close>

text \<open>The queue of a key (empty when the key has none) and the BUY trades of a
  key.\<close>

definition queueOf :: "Inventory \<Rightarrow> string \<Rightarrow> InventoryLot list" where
  "queueOf inventory key = (case inv_get inventory key of None \<Rightarrow> [] | Some q \<Rightarrow> q)"

definition buysOf :: "string \<Rightarrow> PolymarketTrade list \<Rightarrow> PolymarketTrade list" where
  "buysOf key ts = filter (\<lambda>t. side t = BUY \<and> positionKeyOf t = key) ts"

text \<open>
  The entries do not store the quantity they match. The quantity a SELL
  matches against the lots of a queue is what the loop of \<open>matchSellToBuys\<close>
  takes off \<open>remaining\<close>, the sum of the \<open>qty\<close> of its passes, one pass for each
  entry it pushes. \<open>matchedQuantity\<close> adds it up over the SELLs of a key in a
  run of the engine from a given state.
\<close>

definition matchedBy :: "PolymarketTrade \<Rightarrow> InventoryLot list \<Rightarrow> rat" where
  "matchedBy trade queue =
     size_t trade
     - fst (snd (matchLoop trade (jsdiv (usdcSize trade) (size_t trade)) (size_t trade) queue))"

fun matchedQuantity :: "Host \<Rightarrow> string \<Rightarrow> EngineState \<Rightarrow> PolymarketTrade list \<Rightarrow> rat" where
  "matchedQuantity host key st [] = 0"
| "matchedQuantity host key st (t # ts) =
     (if side t = SELL \<and> positionKeyOf t = key
      then matchedBy t (queueOf (fst st) key)
      else 0)
     + matchedQuantity host key (processTrade host st t) ts"

section \<open>Example data\<close>

text \<open>A host that fetches no market. Its \<open>numberToString\<close> is exact on integers
  and writes any other number as a fraction.\<close>

definition exNumberToString :: "rat \<Rightarrow> string" where
  "exNumberToString r =
     (case quotient_of r of (n, d) \<Rightarrow>
        if d = 1 then show_int n else show_int n @ ''/'' @ show_int d)"

definition exHost :: Host where
  "exHost = \<lparr> numberToString = exNumberToString, fetchMarket = (\<lambda>cid. None) \<rparr>"

definition exTrade :: "int \<Rightarrow> Side \<Rightarrow> rat \<Rightarrow> rat \<Rightarrow> PolymarketTrade" where
  "exTrade ts sd sz us =
     \<lparr> timestamp = ts, type = TRADE, side = sd, conditionId = ''0xabc'', outcome = ''Yes'',
       size_t = sz, usdcSize = us, price = Fin 0, transactionHash = ''0x01'',
       title = ''Will it rain?'' \<rparr>"

text \<open>B1 (quantity 10, unit cost 1.0), B2 (quantity 10, unit cost 2.0) and a sell
  of 12 at unit proceeds 3.0.\<close>

definition exB1 :: PolymarketTrade where
  "exB1 = exTrade 1704067200 BUY 10 10"

definition exB2 :: PolymarketTrade where
  "exB2 = exTrade 1704153600 BUY 10 20"

definition exS :: PolymarketTrade where
  "exS = exTrade 1706745600 SELL 12 36"

text \<open>B2 again, bought in the same second as B1.\<close>

definition exB2t :: PolymarketTrade where
  "exB2t = exB2\<lparr>timestamp := 1704067200\<rparr>"

text \<open>Two trades whose position keys collide: (\<open>a-b\<close>, \<open>c\<close>) and (\<open>a\<close>, \<open>b-c\<close>).\<close>

definition exC1 :: PolymarketTrade where
  "exC1 = (exTrade 1704067200 BUY 5 2)\<lparr>conditionId := ''a-b'', outcome := ''c''\<rparr>"

definition exC2 :: PolymarketTrade where
  "exC2 = (exTrade 1704153600 BUY 7 3)\<lparr>conditionId := ''a'', outcome := ''b-c''\<rparr>"

text \<open>A sell of five shares for 0.012 USDC.\<close>

definition exTiny :: PolymarketTrade where
  "exTiny = exTrade 1706745600 SELL 5 (12 / 1000)"






definition exZeroBuy :: PolymarketTrade where
  "exZeroBuy = exTrade 1704067200 BUY 0 0"

definition exSell1 :: PolymarketTrade where
  "exSell1 = exTrade 1706745600 SELL 1 1"

text \<open>Two buys of 1.00009 shares, each followed by a sell of one share.\<close>

definition exDust :: "PolymarketTrade list" where
  "exDust =
     [exTrade 1704067200 BUY (100009 / 100000) 1,
      exTrade 1704153600 SELL 1 1,
      exTrade 1704240000 BUY (100009 / 100000) 1,
      exTrade 1704326400 SELL 1 1]"

section \<open>The matching loop\<close>

lemma epsilon_pos: "0 < epsilon"
  by (simp add: epsilon_def)

lemma spec_fifoPlan_done: "remaining \<le> epsilon \<Longrightarrow> spec_fifoPlan remaining qs = []"
  by (cases qs) auto

lemma spec_fifoPlan_length: "length (spec_fifoPlan remaining qs) \<le> length qs"
  by (induction qs arbitrary: remaining) auto

lemma spec_fifoPlan_exit:
  "remaining - sum_list (spec_fifoPlan remaining qs) \<le> epsilon
   \<or> length (spec_fifoPlan remaining qs) = length qs"
proof (induction qs arbitrary: remaining)
  case Nil
  show ?case by simp
next
  case (Cons q qs)
  show ?case
    using Cons.IH[of "remaining - min remaining q"] by (auto simp: algebra_simps)
qed

lemma matchLoop_done:
  "remaining \<le> epsilon \<Longrightarrow> matchLoop trade p remaining queue = ([], remaining, queue)"
  by (cases queue) (auto simp: matchLoop.simps)

lemma matchLoop_nil: "matchLoop trade p remaining [] = ([], remaining, [])"
  by (simp add: matchLoop.simps)

lemma matchLoop_popped:
  assumes "remaining > epsilon" and "quantity lot - min remaining (quantity lot) < epsilon"
  shows "matchLoop trade p remaining (lot # rest) =
           (matchedEntry trade p lot (min remaining (quantity lot))
              # fst (matchLoop trade p (remaining - min remaining (quantity lot)) rest),
            snd (matchLoop trade p (remaining - min remaining (quantity lot)) rest))"
  using assms by (simp add: matchLoop.simps(2) Let_def split: prod.splits)

lemma kept_min:
  fixes remaining q :: rat
  assumes "\<not> q - min remaining q < epsilon"
  shows "min remaining q = remaining"
  using assms epsilon_pos by (auto simp: min_def split: if_splits)

lemma matchLoop_kept:
  assumes "remaining > epsilon" and "\<not> quantity lot - min remaining (quantity lot) < epsilon"
  shows "matchLoop trade p remaining (lot # rest) =
           ([matchedEntry trade p lot remaining], 0,
            lot\<lparr>quantity := quantity lot - remaining\<rparr> # rest)"
proof -
  have m: "min remaining (quantity lot) = remaining"
    using assms(2) by (rule kept_min)
  show ?thesis
    using assms epsilon_pos unfolding m
    by (simp add: matchLoop.simps(2)[of _ _ remaining] Let_def m matchLoop_done)
qed

text \<open>The three ways one pass of the loop can go at a non-empty queue.\<close>

lemma loop_cases:
  fixes remaining :: rat and lot :: InventoryLot
  obtains (stop) "remaining \<le> epsilon"
    | (popped) "remaining > epsilon" "quantity lot - min remaining (quantity lot) < epsilon"
    | (kept) "remaining > epsilon" "\<not> quantity lot - min remaining (quantity lot) < epsilon"
  by fastforce

lemma matchLoop_entries:
  "fst (matchLoop trade p remaining queue) =
     map (\<lambda>(lot, qty). matchedEntry trade p lot qty)
       (zip queue (spec_fifoPlan remaining (map quantity queue)))"
proof (induction queue arbitrary: remaining)
  case Nil
  show ?case by (simp add: matchLoop_nil)
next
  case (Cons lot rest)
  show ?case
  proof (cases rule: loop_cases[where remaining = remaining and lot = lot])
    case stop
    then show ?thesis by (simp add: matchLoop_done)
  next
    case popped
    then show ?thesis by (simp add: matchLoop_popped Cons.IH)
  next
    case kept
    then show ?thesis
      using epsilon_pos by (simp add: matchLoop_kept kept_min spec_fifoPlan_done)
  qed
qed

lemma matchLoop_remaining:
  "fst (snd (matchLoop trade p remaining queue)) =
     remaining - sum_list (spec_fifoPlan remaining (map quantity queue))"
proof (induction queue arbitrary: remaining)
  case Nil
  show ?case by (simp add: matchLoop_nil)
next
  case (Cons lot rest)
  show ?case
  proof (cases rule: loop_cases[where remaining = remaining and lot = lot])
    case stop
    then show ?thesis by (simp add: matchLoop_done)
  next
    case popped
    then show ?thesis by (simp add: matchLoop_popped Cons.IH)
  next
    case kept
    then show ?thesis
      using epsilon_pos by (simp add: matchLoop_kept kept_min spec_fifoPlan_done)
  qed
qed

lemma residualQueue_nil [simp]: "residualQueue queue [] = queue"
  by (simp add: residualQueue_def)

lemma residualQueue_Cons2:
  "residualQueue (lot # rest) (q # q' # qs) = residualQueue rest (q' # qs)"
  by (simp add: residualQueue_def)

lemma matchLoop_queue:
  "snd (snd (matchLoop trade p remaining queue)) =
     residualQueue queue (spec_fifoPlan remaining (map quantity queue))"
proof (induction queue arbitrary: remaining)
  case Nil
  show ?case by (simp add: matchLoop_nil)
next
  case (Cons lot rest)
  show ?case
  proof (cases rule: loop_cases[where remaining = remaining and lot = lot])
    case stop
    then show ?thesis by (simp add: matchLoop_done spec_fifoPlan_done)
  next
    case popped
    let ?r = "remaining - min remaining (quantity lot)"
    show ?thesis
    proof (cases "spec_fifoPlan ?r (map quantity rest)")
      case Nil
      then show ?thesis
        using popped Cons.IH[of ?r] by (simp add: matchLoop_popped residualQueue_def)
    next
      case (Cons a as)
      then show ?thesis
        using popped Cons.IH[of ?r] by (simp add: matchLoop_popped residualQueue_Cons2)
    qed
  next
    case kept
    then show ?thesis
      using epsilon_pos
      by (simp add: matchLoop_kept kept_min spec_fifoPlan_done residualQueue_def)
  qed
qed

lemma matchLoop_eq:
  "matchLoop trade p remaining queue =
     (let plan = spec_fifoPlan remaining (map quantity queue)
      in (map (\<lambda>(lot, qty). matchedEntry trade p lot qty) (zip queue plan),
          remaining - sum_list plan,
          residualQueue queue plan))"
  using matchLoop_entries[of trade p remaining queue]
    matchLoop_remaining[of trade p remaining queue]
    matchLoop_queue[of trade p remaining queue]
  by (cases "matchLoop trade p remaining queue") (simp add: Let_def)

lemma matchLoop_exit:
  "fst (snd (matchLoop trade p remaining queue)) \<le> epsilon
   \<or> snd (snd (matchLoop trade p remaining queue)) = []"
proof (induction queue arbitrary: remaining)
  case Nil
  show ?case by (simp add: matchLoop_nil)
next
  case (Cons lot rest)
  show ?case
  proof (cases rule: loop_cases[where remaining = remaining and lot = lot])
    case stop
    then show ?thesis by (simp add: matchLoop_done)
  next
    case popped
    then show ?thesis using Cons.IH by (simp add: matchLoop_popped)
  next
    case kept
    then show ?thesis using epsilon_pos by (simp add: matchLoop_kept)
  qed
qed

section \<open>The inventory\<close>

lemma inv_set_list_all:
  "list_all P inventory \<Longrightarrow> P (key, v) \<Longrightarrow> list_all P (inv_set inventory key v)"
  by (induction inventory) auto

lemma inv_get_list_all:
  "list_all P inventory \<Longrightarrow> inv_get inventory key = Some q \<Longrightarrow> P (key, q)"
  by (auto simp: inv_get_def list_all_iff dest: map_of_SomeD)

lemma inv_get_inv_set_same: "inv_get (inv_set inventory key v) key = Some v"
  by (induction inventory) (auto simp: inv_get_def)

lemma inv_get_inv_set_other:
  "k \<noteq> key \<Longrightarrow> inv_get (inv_set inventory key v) k = inv_get inventory k"
  by (induction inventory) (auto simp: inv_get_def)

lemma inv_set_inv_set: "inv_set (inv_set inventory key v) key w = inv_set inventory key w"
  by (induction inventory) auto

lemma addToInventory_eq:
  "addToInventory inventory key trade =
     inv_set inventory key
       ((case inv_get inventory key of None \<Rightarrow> [] | Some q \<Rightarrow> q) @ [newLot trade])"
  by (simp add: addToInventory_def Let_def inv_get_inv_set_same inv_set_inv_set
      split: option.splits)

lemma lotsOrdered_mono: "lotsOrdered b q \<Longrightarrow> b \<le> b' \<Longrightarrow> lotsOrdered b' q"
  by (auto simp: lotsOrdered_def list_all_iff)

lemma queuesOrdered_mono:
  "queuesOrdered b inventory \<Longrightarrow> b \<le> b' \<Longrightarrow> queuesOrdered b' inventory"
  by (auto simp: queuesOrdered_def list_all_iff intro: lotsOrdered_mono)

lemma lotsOrdered_snoc:
  "lotsOrdered b q \<Longrightarrow> b \<le> acquisitionDate l \<Longrightarrow> lotsOrdered (acquisitionDate l) (q @ [l])"
  by (auto simp: lotsOrdered_def list_all_iff sorted_append)

lemma residualQueue_dates:
  "length plan \<le> length queue \<Longrightarrow>
   map acquisitionDate (residualQueue queue plan) = drop (length plan) (map acquisitionDate queue)
   \<or> map acquisitionDate (residualQueue queue plan) = drop (length plan - 1) (map acquisitionDate queue)"
proof (cases "0 < length plan \<and> \<not> quantity (queue ! (length plan - 1)) - plan ! (length plan - 1) < epsilon")
  case False
  then show ?thesis by (auto simp: residualQueue_def Let_def drop_map)
next
  case True
  assume le: "length plan \<le> length queue"
  have pos: "0 < length plan" using True by simp
  have lt: "length plan - 1 < length queue" using le pos by linarith
  have "drop (length plan - 1) queue = queue ! (length plan - 1) # drop (length plan) queue"
    using Cons_nth_drop_Suc[OF lt] pos by simp
  then show ?thesis using True by (simp add: residualQueue_def Let_def drop_map)
qed

lemma lotsOrdered_residual:
  assumes "lotsOrdered b queue" "length plan \<le> length queue"
  shows "lotsOrdered b (residualQueue queue plan)"
proof -
  have d: "\<And>n. sorted (drop n (map acquisitionDate queue))
            \<and> (\<forall>x \<in> set (drop n (map acquisitionDate queue)). x \<le> b)"
    using assms(1)
    by (auto simp: lotsOrdered_def list_all_iff sorted_wrt_drop dest!: in_set_dropD)
  have "lotsOrdered b q = (sorted (map acquisitionDate q) \<and> (\<forall>x \<in> set (map acquisitionDate q). x \<le> b))" for q
    by (auto simp: lotsOrdered_def list_all_iff)
  then show ?thesis
    using residualQueue_dates[OF assms(2)] d by metis
qed

lemma processTrade_ordered:
  assumes "queuesOrdered b (fst st)" "b \<le> timestamp trade"
  shows "queuesOrdered (timestamp trade) (fst (processTrade host st trade))"
proof -
  obtain inventory entries warns where st: "st = (inventory, entries, warns)"
    by (cases st) auto
  have inv: "queuesOrdered b inventory" using assms(1) st by simp
  then have inv': "queuesOrdered (timestamp trade) inventory"
    using assms(2) queuesOrdered_mono by blast
  let ?key = "positionKeyOf trade"
  consider (buy) "side trade = BUY" | (sell) "side trade = SELL" | (other) "side trade = NoSide"
    by (cases "side trade") auto
  then show ?thesis
  proof cases
    case other
    then show ?thesis using inv' st by (simp add: processTrade_def)
  next
    case buy
    let ?q = "case inv_get inventory ?key of None \<Rightarrow> [] | Some q \<Rightarrow> q"
    have q: "lotsOrdered b ?q"
      using inv inv_get_list_all[of _ inventory ?key]
      by (auto simp: queuesOrdered_def lotsOrdered_def split: option.splits)
    have "lotsOrdered (timestamp trade) (?q @ [newLot trade])"
      using lotsOrdered_snoc[OF q, of "newLot trade"] assms(2) by (simp add: newLot_def)
    moreover have "addToInventory inventory ?key trade = inv_set inventory ?key (?q @ [newLot trade])"
      by (rule addToInventory_eq)
    ultimately show ?thesis
      using inv' buy st
      by (simp add: processTrade_def queuesOrdered_def inv_set_list_all)
  next
    case sell
    let ?q = "case inv_get inventory ?key of None \<Rightarrow> [] | Some q \<Rightarrow> q"
    let ?plan = "spec_fifoPlan (size_t trade) (map quantity ?q)"
    have q: "lotsOrdered (timestamp trade) ?q"
      using inv' inv_get_list_all[of _ inventory ?key]
      by (auto simp: queuesOrdered_def lotsOrdered_def split: option.splits)
    have "lotsOrdered (timestamp trade) (residualQueue ?q ?plan)"
      using lotsOrdered_residual[OF q] spec_fifoPlan_length[of "size_t trade" "map quantity ?q"]
      by simp
    then show ?thesis
      using inv' sell st
      by (auto simp: processTrade_def matchSellToBuys_def matchLoop_eq Let_def
          queuesOrdered_def inv_set_list_all split: option.splits)
  qed
qed

lemma queuesOrdered_sorted:
  "queuesOrdered b inventory \<Longrightarrow>
   list_all (\<lambda>(k, q). sorted (map acquisitionDate q)) inventory"
  by (auto simp: queuesOrdered_def lotsOrdered_def list_all_iff)

lemma foldl_processTrade_ordered:
  "sorted (map timestamp ts) \<Longrightarrow> queuesOrdered b (fst st) \<Longrightarrow>
   list_all (\<lambda>t. b \<le> timestamp t) ts \<Longrightarrow>
   \<exists>b'. queuesOrdered b' (fst (foldl (processTrade host) st ts))"
proof (induction ts arbitrary: b st)
  case Nil
  then show ?case by auto
next
  case (Cons t ts)
  have step: "queuesOrdered (timestamp t) (fst (processTrade host st t))"
    using processTrade_ordered[of b st t host] Cons.prems by simp
  have later: "list_all (\<lambda>u. timestamp t \<le> timestamp u) ts"
    using Cons.prems(1) by (auto simp: list_all_iff)
  have "sorted (map timestamp ts)" using Cons.prems(1) by simp
  from Cons.IH[OF this step later] show ?case by simp
qed

lemma runEngine_ordered:
  assumes "sorted (map timestamp ts)"
  shows "list_all (\<lambda>(k, q). sorted (map acquisitionDate q)) (fst (runEngine host ts))"
proof (cases ts)
  case Nil
  then show ?thesis by (simp add: runEngine_def)
next
  case (Cons t rest)
  have "queuesOrdered (timestamp t) (fst (([], [], []) :: EngineState))"
    by (simp add: queuesOrdered_def)
  moreover have "list_all (\<lambda>u. timestamp t \<le> timestamp u) ts"
    using assms Cons by (auto simp: list_all_iff)
  ultimately obtain b' where "queuesOrdered b' (fst (runEngine host ts))"
    using foldl_processTrade_ordered[OF assms, of "timestamp t" "([], [], [])" host]
    unfolding runEngine_def by blast
  then show ?thesis by (rule queuesOrdered_sorted)
qed

lemma normalizeAll_sorted: "sorted (map timestamp (take n (normalizeAll trades)))"
  by (simp add: normalizeAll_def take_map[symmetric] sorted_wrt_take)

lemma engine_queues_in_acquisition_order:
  "list_all (\<lambda>(k, q). sorted (map acquisitionDate q))
     (fst (runEngine host (take n (normalizeAll trades))))"
  by (rule runEngine_ordered) (rule normalizeAll_sorted)

lemma inv_set_same: "map_of inventory key = Some q \<Longrightarrow> inv_set inventory key q = inventory"
  by (induction inventory) (auto split: if_splits)

section \<open>Position keys and open positions\<close>

lemma split_on_nonempty: "split_on c s \<noteq> []"
  by (induction s) (auto split: list.splits)

lemma split_on_first: "c \<notin> set a \<Longrightarrow> split_on c (a @ c # rest) = a # split_on c rest"
  by (induction a) auto

lemma join_split: "join_with c (split_on c s) = s"
proof (induction s)
  case Nil
  show ?case by simp
next
  case (Cons x xs)
  obtain w ws where sp: "split_on c xs = w # ws"
    using split_on_nonempty[of c xs] by (cases "split_on c xs") auto
  show ?case
  proof (cases "x = c")
    case True
    then show ?thesis using Cons.IH sp by simp
  next
    case False
    then show ?thesis using Cons.IH sp by (cases ws) auto
  qed
qed

lemma hd_split_on: "hd (split_on c s) = takeWhile (\<lambda>x. x \<noteq> c) s"
  by (induction s) (auto split: list.splits simp: split_on_nonempty)

lemma decode_roundtrip:
  assumes "CHR ''-'' \<notin> set cid"
  shows "hd (split_on (CHR ''-'') (cid @ ''-'' @ outc)) = cid"
    and "join_with (CHR ''-'') (tl (split_on (CHR ''-'') (cid @ ''-'' @ outc))) = outc"
  using assms by (simp_all add: split_on_first join_split)

lemma decode_prefix:
  assumes "CHR ''-'' \<in> set cid"
  shows "strict_prefix (hd (split_on (CHR ''-'') (cid @ ''-'' @ outc))) cid"
proof -
  let ?t = "takeWhile (\<lambda>x. x \<noteq> CHR ''-'') cid"
  have "hd (split_on (CHR ''-'') (cid @ ''-'' @ outc)) = ?t"
    using assms by (simp add: hd_split_on takeWhile_append1)
  moreover have "prefix ?t cid"
    by (metis takeWhile_dropWhile_id prefixI)
  moreover have "?t \<noteq> cid"
    using assms by (metis (mono_tags, lifting) set_takeWhileD)
  ultimately show ?thesis by (simp add: strict_prefix_def)
qed

lemma collectOpenPositions_set:
  "p \<in> set (collectOpenPositions inventory) \<Longrightarrow>
   \<exists>key ls. p = openPositionOf key ls \<and> (key, ls) \<in> set inventory \<and> ls \<noteq> []"
  by (induction inventory rule: collectOpenPositions.induct) (auto split: if_splits)

lemma openPositionOf_key: "positionKey (openPositionOf key ls) = key"
  by (simp add: openPositionOf_def Let_def)

lemma sumByRat_foldl:
  fixes key :: "'a \<Rightarrow> rat"
  shows "foldl (\<lambda>sum item. sum + key item) a arr = a + sum_list (map key arr)"
  by (induction arr arbitrary: a) (simp_all add: add.assoc)

lemma sumByRat_eq: "sumByRat arr key = sum_list (map key arr)"
  by (simp add: sumByRat_def sumByRat_foldl)

lemma cost_basis_example:
  "map (\<lambda>p. (posQuantity p, posCostBasis p,
              map (\<lambda>l. (quantity l, costBasisPerToken l,
                         jsmul (Fin (quantity l)) (costBasisPerToken l))) (lots p)))
     (openPositions (generateTaxReport exHost [exB1, exB2, exS] 2024))
   = [(8, 20, [(8, Fin 2, Fin 16)])]"
  by code_simp

section \<open>The report\<close>

lemma processWorthlessPositions_nil: "processWorthlessPositions host [] taxYearEnd = []"
  by (simp add: processWorthlessPositions_def)

lemma generateTaxReport_eq:
  "generateTaxReport host trades taxYear =
     \<lparr> shortTerm = filter (\<lambda>e. \<not> isLongTerm e) (reportEntries host trades taxYear),
       longTerm = filter isLongTerm (reportEntries host trades taxYear),
       shortTermSummary =
         calculateSummary (filter (\<lambda>e. \<not> isLongTerm e) (reportEntries host trades taxYear)),
       longTermSummary = calculateSummary (filter isLongTerm (reportEntries host trades taxYear)),
       totalTransactions = length (reportEntries host trades taxYear),
       totalGainLoss = round2 (sumBy (reportEntries host trades taxYear) gainLoss),
       warnings = snd (snd (runEngine host (normalizeAll trades))),
       openPositions = collectOpenPositions (fst (runEngine host (normalizeAll trades))) \<rparr>"
  by (simp add: generateTaxReport_def reportEntries_def Let_def processWorthlessPositions_nil
      split: prod.splits)

lemma worthlessEntriesOf_spec:
  assumes "posConditionId p \<in> set conditionIds"
  shows "worthlessEntriesOf (fetchMarketsBatch host conditionIds) taxYearEnd p =
           (if spec_isWorthless host p
            then map (worthlessEntry p taxYearEnd) (lots p) else [])"
  using assms
  by (simp add: worthlessEntriesOf_def fetchMarketsBatch_def spec_isWorthless_def
      split: option.splits)

lemma processWorthlessPositions_spec:
  "processWorthlessPositions host positions taxYearEnd =
     concat (map (\<lambda>p. if spec_isWorthless host p
                       then map (worthlessEntry p taxYearEnd) (lots p) else []) positions)"
proof -
  have h: "map (worthlessEntriesOf (fetchMarketsBatch host (map posConditionId positions)) taxYearEnd)
          positions =
        map (\<lambda>p. if spec_isWorthless host p
                  then map (worthlessEntry p taxYearEnd) (lots p) else []) positions"
    by (rule map_cong[OF refl]) (simp add: worthlessEntriesOf_spec)
  show ?thesis
    unfolding processWorthlessPositions_def Let_def h by (rule refl)
qed


section \<open>The end of the tax year\<close>





section \<open>Rounding\<close>

lemma isCents_Fin_iff: "isCents (Fin r) = (\<exists>n::int. r = of_int n / 100)"
proof
  assume "isCents (Fin r)"
  then have "of_int \<lfloor>r * 100\<rfloor> = r * 100" by (simp only: isCents.simps)
  then have "of_int \<lfloor>r * 100\<rfloor> / 100 = r * 100 / 100" by (simp only:)
  also have "r * 100 / 100 = r" by simp
  finally have "r = of_int \<lfloor>r * 100\<rfloor> / 100" by (rule sym)
  then show "\<exists>n::int. r = of_int n / 100" ..
next
  assume "\<exists>n::int. r = of_int n / 100"
  then obtain n :: int where "r = of_int n / 100" ..
  then have "r * 100 = of_int n" by simp
  then have "of_int \<lfloor>r * 100\<rfloor> = r * 100" by (simp only: floor_of_int)
  then show "isCents (Fin r)" by (simp only: isCents.simps)
qed

lemma math_round_of_int: "math_round (of_int n) = n"
  unfolding math_round_def by linarith

lemma isCents_round2: "x \<noteq> PInf \<Longrightarrow> x \<noteq> NInf \<Longrightarrow> isCents (round2 x)"
proof (cases x)
  case (Fin r)
  have "isCents (Fin (of_int (math_round (r * 100)) / 100))"
    unfolding isCents_Fin_iff by blast
  then show ?thesis using Fin by simp
qed simp_all

lemma isCents_jsneg: "isCents x \<Longrightarrow> isCents (jsneg x)"
proof (cases x)
  case (Fin r)
  assume "isCents x"
  then have "isCents (Fin r)" using Fin by simp
  then obtain n :: int where "r = of_int n / 100" unfolding isCents_Fin_iff by blast
  then have "- r = of_int (- n) / 100" by simp
  then have "isCents (Fin (- r))" unfolding isCents_Fin_iff by blast
  then show ?thesis using Fin by simp
qed simp_all

lemma round2_cents: "isCents (Fin r) \<Longrightarrow> round2 (Fin r) = Fin r"
proof -
  assume "isCents (Fin r)"
  then obtain n :: int where n: "r = of_int n / 100" unfolding isCents_Fin_iff by blast
  then have "r * 100 = of_int n" by simp
  then show ?thesis using n by (simp add: math_round_of_int)
qed

lemma roundHalfAway2_cents:
  assumes "isCents (Fin r)"
  shows "spec_roundHalfAway2 r = r"
proof -
  obtain n :: int where n: "r = of_int n / 100" using assms unfolding isCents_Fin_iff by blast
  have a: "\<bar>r\<bar> * 100 = of_int \<bar>n\<bar>" unfolding n by simp
  have "\<lfloor>\<bar>r\<bar> * 100 + 1 / 2\<rfloor> = \<bar>n\<bar>"
    unfolding a using math_round_of_int[of "\<bar>n\<bar>"] by (simp only: math_round_def)
  then have "spec_roundHalfAway2 r = sgn r * \<bar>r\<bar>"
    unfolding spec_roundHalfAway2_def using a by simp
  then show ?thesis by (simp add: abs_if sgn_if)
qed

lemma isCents_add: "isCents (Fin a) \<Longrightarrow> isCents (Fin b) \<Longrightarrow> isCents (Fin (a + b))"
proof -
  assume "isCents (Fin a)" "isCents (Fin b)"
  then obtain m n :: int where "a = of_int m / 100" "b = of_int n / 100"
    unfolding isCents_Fin_iff by blast
  then have "a + b = of_int (m + n) / 100" by (simp add: add_divide_distrib)
  then show ?thesis unfolding isCents_Fin_iff by blast
qed


section \<open>Sound inventories and the entries they give\<close>

lemma newLot_sound: "lotSound (newLot trade)"
  by (simp add: lotSound_def newLot_def)

lemma jsmul_zero_nonfinite: "\<not> isFin c \<Longrightarrow> jsmul (Fin 0) c = NaN"
  by (cases c) simp_all

lemma jssub_Fin_zero: "jssub A (Fin 0) = A"
  by (cases A) (simp_all add: jssub_def)

lemma matchedEntry_shape: "differenceShape (matchedEntry trade p lot qty)"
  unfolding differenceShape_def matchedEntry_def Let_def by (simp del: round2.simps) blast

lemma matchedEntry_ok:
  assumes "lotSound lot" and "remaining > epsilon" and "isFin p"
  shows "entryOk (matchedEntry trade p lot (min remaining (quantity lot)))"
proof -
  obtain x where p: "p = Fin x" using assms(3) by (cases p) simp_all
  let ?qty = "min remaining (quantity lot)"
  have P: "isCents (round2 (jsmul (Fin ?qty) p))"
    unfolding p by (simp add: isCents_round2)
  have cost: "(\<exists>c. jsmul (Fin ?qty) (costBasisPerToken lot) = Fin c)
              \<or> jsmul (Fin ?qty) (costBasisPerToken lot) = NaN"
  proof (cases "isFin (costBasisPerToken lot)")
    case True
    then obtain c where "costBasisPerToken lot = Fin c"
      by (cases "costBasisPerToken lot") simp_all
    then show ?thesis by simp
  next
    case False
    then have "quantity lot = 0" using assms(1) by (simp add: lotSound_def)
    then have "?qty = 0" using assms(2) epsilon_pos by (simp add: min_def)
    then show ?thesis using jsmul_zero_nonfinite[OF False] by simp
  qed
  then have C: "isCents (round2 (jsmul (Fin ?qty) (costBasisPerToken lot)))"
    by (auto simp: isCents_round2)
  have "(\<exists>g. jssub (jsmul (Fin ?qty) p) (jsmul (Fin ?qty) (costBasisPerToken lot)) = Fin g)
        \<or> jssub (jsmul (Fin ?qty) p) (jsmul (Fin ?qty) (costBasisPerToken lot)) = NaN"
    using cost unfolding p by (auto simp: jssub_def)
  then have G: "isCents (round2 (jssub (jsmul (Fin ?qty) p)
                   (jsmul (Fin ?qty) (costBasisPerToken lot))))"
    by (auto simp: isCents_round2)
  have "entryCents (matchedEntry trade p lot ?qty)"
    using P C G by (simp add: entryCents_def matchedEntry_def Let_def)
  then show ?thesis using matchedEntry_shape by (simp add: entryOk_def)
qed

lemma matched_entries_ok:
  "list_all lotSound queue \<Longrightarrow> isFin p \<Longrightarrow>
   list_all entryOk (map (\<lambda>(lot, qty). matchedEntry trade p lot qty)
     (zip queue (spec_fifoPlan remaining (map quantity queue))))"
proof (induction queue arbitrary: remaining)
  case Nil
  show ?case by simp
next
  case (Cons lot rest)
  show ?case
  proof (cases "remaining > epsilon")
    case False
    then show ?thesis by simp
  next
    case True
    have "entryOk (matchedEntry trade p lot (min remaining (quantity lot)))"
      using matchedEntry_ok[of lot remaining p trade] Cons.prems True by simp
    moreover have "list_all entryOk (map (\<lambda>(lot, qty). matchedEntry trade p lot qty)
       (zip rest (spec_fifoPlan (remaining - min remaining (quantity lot)) (map quantity rest))))"
      using Cons.IH[of "remaining - min remaining (quantity lot)"] Cons.prems by simp
    ultimately show ?thesis using True by simp
  qed
qed

lemma matchLoop_sound:
  "list_all lotSound queue \<Longrightarrow> list_all lotSound (snd (snd (matchLoop trade p remaining queue)))"
proof (induction queue arbitrary: remaining)
  case Nil
  show ?case by (simp add: matchLoop_nil)
next
  case (Cons lot rest)
  show ?case
  proof (cases rule: loop_cases[where remaining = remaining and lot = lot])
    case stop
    then show ?thesis using Cons.prems by (simp add: matchLoop_done)
  next
    case popped
    then show ?thesis using Cons.IH Cons.prems by (simp add: matchLoop_popped)
  next
    case kept
    have "quantity lot \<noteq> 0"
    proof
      assume z: "quantity lot = 0"
      then have "min remaining (quantity lot) = 0" using kept(1) epsilon_pos by (simp add: min_def)
      then show False using kept(2) z epsilon_pos by simp
    qed
    then have "isFin (costBasisPerToken lot)" using Cons.prems by (simp add: lotSound_def)
    then have "lotSound (lot\<lparr>quantity := quantity lot - remaining\<rparr>)"
      by (simp add: lotSound_def)
    then show ?thesis using kept Cons.prems by (simp add: matchLoop_kept)
  qed
qed

lemma residual_sound:
  "list_all lotSound queue \<Longrightarrow>
   list_all lotSound (residualQueue queue (spec_fifoPlan remaining (map quantity queue)))"
  using matchLoop_sound[of queue undefined undefined remaining] by (simp add: matchLoop_eq Let_def)

lemma oversellEntry_ok:
  assumes "isFin p"
  shows "entryOk (oversellEntry trade p left)"
proof -
  obtain x where p: "p = Fin x" using assms by (cases p) simp_all
  have r0: "round2 (Fin 0) = Fin 0" using math_round_of_int[of 0] by simp
  have c: "isCents (round2 (jsmul (Fin left) p))" unfolding p by (simp add: isCents_round2)
  have "differenceShape (oversellEntry trade p left)"
    unfolding differenceShape_def oversellEntry_def Let_def
    by (rule exI[of _ "jsmul (Fin left) p"], rule exI[of _ "Fin 0"])
       (simp add: r0 jssub_Fin_zero del: round2.simps)
  moreover have "entryCents (oversellEntry trade p left)"
    using c by (simp add: entryCents_def oversellEntry_def Let_def)
  ultimately show ?thesis by (simp add: entryOk_def)
qed

lemma inventorySound_get:
  "inventorySound inventory \<Longrightarrow>
   list_all lotSound (case inv_get inventory key of None \<Rightarrow> [] | Some q \<Rightarrow> q)"
  using inv_get_list_all[of "\<lambda>(k, q). list_all lotSound q" inventory key]
  by (auto simp: inventorySound_def split: option.splits)

lemma inventorySound_set:
  "inventorySound inventory \<Longrightarrow> list_all lotSound q \<Longrightarrow>
   inventorySound (inv_set inventory key q)"
  unfolding inventorySound_def by (rule inv_set_list_all) simp_all

lemma matchSellToBuys_sound:
  assumes "inventorySound inventory"
  shows "list_all entryOk (fst (matchSellToBuys host inventory key trade))
         \<and> inventorySound (snd (snd (matchSellToBuys host inventory key trade)))"
proof -
  define queue where "queue = (case inv_get inventory key of None \<Rightarrow> [] | Some q \<Rightarrow> q)"
  define plan where "plan = spec_fifoPlan (size_t trade) (map quantity queue)"
  define p where "p = jsdiv (usdcSize trade) (size_t trade)"
  have q: "list_all lotSound queue"
    unfolding queue_def using assms by (rule inventorySound_get)
  have res: "list_all lotSound (residualQueue queue plan)"
    unfolding plan_def using q by (rule residual_sound)
  have inv: "inventorySound (snd (snd (matchSellToBuys host inventory key trade)))"
    using assms res inventorySound_set[OF assms res, of key]
    by (simp add: matchSellToBuys_def matchLoop_eq Let_def queue_def plan_def
        split: option.splits)
  have ent: "list_all entryOk (fst (matchSellToBuys host inventory key trade))"
  proof (cases "size_t trade > epsilon")
    case False
    then have "plan = []" unfolding plan_def by (simp add: spec_fifoPlan_done)
    then show ?thesis
      using False
      by (simp add: matchSellToBuys_def matchLoop_eq Let_def queue_def[symmetric]
          plan_def[symmetric])
  next
    case True
    then have fin: "isFin p" unfolding p_def using epsilon_pos by simp
    have "list_all entryOk (map (\<lambda>(lot, qty). matchedEntry trade p lot qty) (zip queue plan))"
      unfolding plan_def using q fin by (rule matched_entries_ok)
    then show ?thesis
      using oversellEntry_ok[OF fin, of trade]
      by (simp add: matchSellToBuys_def matchLoop_eq Let_def queue_def[symmetric]
          plan_def[symmetric] p_def[symmetric] del: jsdiv.simps)
  qed
  show ?thesis using ent inv by simp
qed

lemma addToInventory_sound:
  assumes "inventorySound inventory"
  shows "inventorySound (addToInventory inventory key trade)"
  unfolding addToInventory_eq
  using inventorySound_get[OF assms, of key] newLot_sound[of trade]
  by (intro inventorySound_set[OF assms]) simp

lemma processTrade_sound:
  assumes "inventorySound (fst st)" and "list_all entryOk (fst (snd st))"
  shows "inventorySound (fst (processTrade host st trade))
         \<and> list_all entryOk (fst (snd (processTrade host st trade)))"
proof -
  obtain inventory entries warns where st: "st = (inventory, entries, warns)"
    by (cases st) auto
  show ?thesis
    using assms matchSellToBuys_sound[of inventory host "positionKeyOf trade" trade]
      addToInventory_sound[of inventory "positionKeyOf trade" trade]
    by (auto simp: st processTrade_def Let_def split: prod.splits)
qed

lemma foldl_processTrade_sound:
  "inventorySound (fst st) \<Longrightarrow> list_all entryOk (fst (snd st)) \<Longrightarrow>
   inventorySound (fst (foldl (processTrade host) st ts))
   \<and> list_all entryOk (fst (snd (foldl (processTrade host) st ts)))"
proof (induction ts arbitrary: st)
  case Nil
  then show ?case by simp
next
  case (Cons t ts)
  show ?case
    using Cons.IH[of "processTrade host st t"] processTrade_sound[OF Cons.prems, of host t]
    by simp
qed

lemma runEngine_sound:
  "inventorySound (fst (runEngine host ts)) \<and> list_all entryOk (fst (snd (runEngine host ts)))"
  unfolding runEngine_def
  by (rule foldl_processTrade_sound) (simp_all add: inventorySound_def)

lemma collectOpenPositions_sound:
  assumes "inventorySound inventory" and "p \<in> set (collectOpenPositions inventory)"
  shows "list_all lotSound (lots p)"
proof -
  obtain key ls where "p = openPositionOf key ls" "(key, ls) \<in> set inventory"
    using collectOpenPositions_set[OF assms(2)] by blast
  then show ?thesis
    using assms(1) by (auto simp: inventorySound_def list_all_iff openPositionOf_def Let_def)
qed

lemma worthlessEntry_ok:
  assumes "lotSound lot"
  shows "entryOk (worthlessEntry p taxYearEnd lot)"
proof -
  let ?c = "jsmul (Fin (quantity lot)) (costBasisPerToken lot)"
  have "(\<exists>c. ?c = Fin c) \<or> ?c = NaN"
  proof (cases "isFin (costBasisPerToken lot)")
    case True
    then obtain c where "costBasisPerToken lot = Fin c"
      by (cases "costBasisPerToken lot") simp_all
    then show ?thesis by simp
  next
    case False
    then have "quantity lot = 0" using assms by (simp add: lotSound_def)
    then show ?thesis using jsmul_zero_nonfinite[OF False] by simp
  qed
  then have c: "isCents (round2 ?c)" by (auto simp: isCents_round2)
  then have "entryCents (worthlessEntry p taxYearEnd lot)"
    using isCents_jsneg[OF c]
    by (simp add: entryCents_def worthlessEntry_def Let_def del: round2.simps)
  moreover have "writeOffShape (worthlessEntry p taxYearEnd lot)"
    by (simp add: writeOffShape_def worthlessEntry_def Let_def)
  ultimately show ?thesis by (simp add: entryOk_def)
qed

lemma processWorthlessPositions_ok:
  assumes "\<And>p. p \<in> set positions \<Longrightarrow> list_all lotSound (lots p)"
  shows "list_all entryOk (processWorthlessPositions host positions taxYearEnd)"
  unfolding processWorthlessPositions_spec list_all_iff
  using assms worthlessEntry_ok by (auto simp: list_all_iff)

lemma reportEntries_ok: "list_all entryOk (reportEntries host trades taxYear)"
proof -
  obtain inventory entries0 warns where
    r: "runEngine host (normalizeAll trades) = (inventory, entries0, warns)"
    by (cases "runEngine host (normalizeAll trades)") auto
  have s: "inventorySound inventory" "list_all entryOk entries0"
    using runEngine_sound[of host "normalizeAll trades"] r by simp_all
  have "list_all entryOk (processWorthlessPositions host (collectOpenPositions inventory)
          (taxYearEndOf taxYear))"
    by (rule processWorthlessPositions_ok) (rule collectOpenPositions_sound[OF s(1)])
  then show ?thesis using s(2) by (simp add: reportEntries_def r)
qed

section \<open>C1: a sell is matched first in, first out\<close>

lemma fifo_example:
  "(case runEngine host [exB1, exB2, exS] of
      (inventory, entries, warns) \<Rightarrow>
        map (\<lambda>e. (proceeds e, costBasis e, gainLoss e)) entries
          = [(Fin 30, Fin 10, Fin 20), (Fin 6, Fin 4, Fin 2)]
        \<and> map (\<lambda>(k, q). (k, map quantity q)) inventory = [(''0xabc-Yes'', [8])]
        \<and> warns = [])"
  by code_simp

lemma matchSellToBuys_plan:
  "(let queue = (case inv_get inventory key of None \<Rightarrow> [] | Some q \<Rightarrow> q);
        p = jsdiv (usdcSize trade) (size_t trade);
        plan = spec_fifoPlan (size_t trade) (map quantity queue);
        left = size_t trade - sum_list plan
    in case matchSellToBuys host inventory key trade of
         (newEntries, warning, inventory') \<Rightarrow>
           newEntries =
             map (\<lambda>(lot, qty). matchedEntry trade p lot qty) (zip queue plan)
             @ (if left > epsilon then [oversellEntry trade p left] else [])
           \<and> length plan \<le> length queue
           \<and> (left \<le> epsilon \<or> length plan = length queue)
           \<and> inventory' =
               (case inv_get inventory key of
                  None \<Rightarrow> inventory
                | Some _ \<Rightarrow> inv_set inventory key (residualQueue queue plan)))"
proof -
  define queue where "queue = (case inv_get inventory key of None \<Rightarrow> [] | Some q \<Rightarrow> q)"
  define plan where "plan = spec_fifoPlan (size_t trade) (map quantity queue)"
  have len: "length plan \<le> length queue"
    unfolding plan_def using spec_fifoPlan_length[of "size_t trade" "map quantity queue"] by simp
  have ex: "size_t trade - sum_list plan \<le> epsilon \<or> length plan = length queue"
    unfolding plan_def using spec_fifoPlan_exit[of "size_t trade" "map quantity queue"] by simp
  show ?thesis
    using len ex
    by (simp add: matchSellToBuys_def matchLoop_eq Let_def queue_def plan_def
        split: option.splits)
qed

text \<open>
  C1. A SELL on a position key is matched against the key's queue as the
  specification's plan says: with \<open>queue\<close> the key's queue (empty when the key
  has none) and \<open>plan\<close> the quantities \<open>min(remaining, lot.quantity)\<close> taken lot
  by lot from the head until \<open>remaining\<close> is at or below epsilon or the queue is
  used up, \<open>matchSellToBuys\<close> returns exactly one entry per lot of the plan, in
  queue order, each built from that lot and its matched quantity (followed by
  the oversell entry when more than epsilon is left); the plan stops only when
  at most epsilon is left or every lot was reached; and the key's queue
  afterwards is what the plan leaves of it. Throughout a run of the engine on
  the normalized trades every queue is in acquisition order from head to tail.
  For B1 (10 at 1.0), B2 (10 at 2.0) and a sell of 12 at 3.0 the entries are
  (proceeds 30, cost 10, gain 20) and (proceeds 6, cost 4, gain 2), and B2
  keeps 8 units.
\<close>

theorem sell_matches_fifo:
  "(let queue = (case inv_get inventory key of None \<Rightarrow> [] | Some q \<Rightarrow> q);
        p = jsdiv (usdcSize trade) (size_t trade);
        plan = spec_fifoPlan (size_t trade) (map quantity queue);
        left = size_t trade - sum_list plan
    in case matchSellToBuys host inventory key trade of
         (newEntries, warning, inventory') \<Rightarrow>
           newEntries =
             map (\<lambda>(lot, qty). matchedEntry trade p lot qty) (zip queue plan)
             @ (if left > epsilon then [oversellEntry trade p left] else [])
           \<and> length plan \<le> length queue
           \<and> (left \<le> epsilon \<or> length plan = length queue)
           \<and> inventory' =
               (case inv_get inventory key of
                  None \<Rightarrow> inventory
                | Some _ \<Rightarrow> inv_set inventory key (residualQueue queue plan)))
   \<and> list_all (\<lambda>(k, q). sorted (map acquisitionDate q))
         (fst (runEngine host (take n (normalizeAll trades))))
   \<and> (case runEngine host [exB1, exB2, exS] of
        (inventory, entries, warns) \<Rightarrow>
          map (\<lambda>e. (proceeds e, costBasis e, gainLoss e)) entries
            = [(Fin 30, Fin 10, Fin 20), (Fin 6, Fin 4, Fin 2)]
          \<and> map (\<lambda>(k, q). (k, map quantity q)) inventory = [(''0xabc-Yes'', [8])]
          \<and> warns = [])"
  using matchSellToBuys_plan[of inventory key trade host]
    engine_queues_in_acquisition_order[of host n trades]
    fifo_example[of host]
  by blast

lemma fifo_example_sell:
  "(case matchSellToBuys exHost [(''0xabc-Yes'', [newLot exB1, newLot exB2])] ''0xabc-Yes'' exS of
      (newEntries, warning, inventory') \<Rightarrow>
        map (\<lambda>e. (dateAcquired e, proceeds e, costBasis e, gainLoss e)) newEntries =
          [(''01/01/2024'', Fin 30, Fin 10, Fin 20), (''01/02/2024'', Fin 6, Fin 4, Fin 2)]
        \<and> warning = None
        \<and> inventory' = [(''0xabc-Yes'', [(newLot exB2)\<lparr>quantity := 8\<rparr>])])"
  by code_simp

theorem sell_matches_fifo_witness:
  "((let queue = (case inv_get [(''0xabc-Yes'', [newLot exB1, newLot exB2])] ''0xabc-Yes'' of
                    None \<Rightarrow> [] | Some q \<Rightarrow> q);
         p = jsdiv (usdcSize exS) (size_t exS);
         plan = spec_fifoPlan (size_t exS) (map quantity queue);
         left = size_t exS - sum_list plan
     in case matchSellToBuys exHost [(''0xabc-Yes'', [newLot exB1, newLot exB2])] ''0xabc-Yes'' exS of
          (newEntries, warning, inventory') \<Rightarrow>
            newEntries =
              map (\<lambda>(lot, qty). matchedEntry exS p lot qty) (zip queue plan)
              @ (if left > epsilon then [oversellEntry exS p left] else [])
            \<and> length plan \<le> length queue
            \<and> (left \<le> epsilon \<or> length plan = length queue)
            \<and> inventory' =
                (case inv_get [(''0xabc-Yes'', [newLot exB1, newLot exB2])] ''0xabc-Yes'' of
                   None \<Rightarrow> [(''0xabc-Yes'', [newLot exB1, newLot exB2])]
                 | Some _ \<Rightarrow> inv_set [(''0xabc-Yes'', [newLot exB1, newLot exB2])] ''0xabc-Yes''
                              (residualQueue queue plan)))
    \<and> list_all (\<lambda>(k, q). sorted (map acquisitionDate q))
          (fst (runEngine exHost (take 2 (normalizeAll [exS, exB2, exB1]))))
    \<and> (case runEngine exHost [exB1, exB2, exS] of
         (inventory, entries, warns) \<Rightarrow>
           map (\<lambda>e. (proceeds e, costBasis e, gainLoss e)) entries
             = [(Fin 30, Fin 10, Fin 20), (Fin 6, Fin 4, Fin 2)]
           \<and> map (\<lambda>(k, q). (k, map quantity q)) inventory = [(''0xabc-Yes'', [8])]
           \<and> warns = []))
   \<and> (case matchSellToBuys exHost [(''0xabc-Yes'', [newLot exB1, newLot exB2])] ''0xabc-Yes'' exS of
      (newEntries, warning, inventory') \<Rightarrow>
        map (\<lambda>e. (dateAcquired e, proceeds e, costBasis e, gainLoss e)) newEntries =
          [(''01/01/2024'', Fin 30, Fin 10, Fin 20), (''01/02/2024'', Fin 6, Fin 4, Fin 2)]
        \<and> warning = None
        \<and> inventory' = [(''0xabc-Yes'', [(newLot exB2)\<lparr>quantity := 8\<rparr>])])"
  by (rule conjI[OF sell_matches_fifo fifo_example_sell])

section \<open>C2: the balance of quantities of a position key\<close>

lemma matchLoop_balance:
  "length (snd (snd (matchLoop trade p remaining queue))) \<le> length queue
   \<and> 0 \<le> sum_list (map quantity queue)
          - sum_list (map quantity (snd (snd (matchLoop trade p remaining queue))))
          - (remaining - fst (snd (matchLoop trade p remaining queue)))
   \<and> sum_list (map quantity queue)
          - sum_list (map quantity (snd (snd (matchLoop trade p remaining queue))))
          - (remaining - fst (snd (matchLoop trade p remaining queue)))
       \<le> epsilon * (of_nat (length queue)
                      - of_nat (length (snd (snd (matchLoop trade p remaining queue)))))"
proof (induction queue arbitrary: remaining)
  case Nil
  show ?case by (simp add: matchLoop_nil)
next
  case (Cons lot rest)
  show ?case
  proof (cases rule: loop_cases[where remaining = remaining and lot = lot])
    case stop
    then show ?thesis by (simp add: matchLoop_done)
  next
    case kept
    then show ?thesis by (simp add: matchLoop_kept)
  next
    case popped
    let ?m = "min remaining (quantity lot)"
    let ?res = "matchLoop trade p (remaining - ?m) rest"
    have ih: "length (snd (snd ?res)) \<le> length rest"
      "0 \<le> sum_list (map quantity rest) - sum_list (map quantity (snd (snd ?res)))
            - (remaining - ?m - fst (snd ?res))"
      "sum_list (map quantity rest) - sum_list (map quantity (snd (snd ?res)))
            - (remaining - ?m - fst (snd ?res))
       \<le> epsilon * (of_nat (length rest) - of_nat (length (snd (snd ?res))))"
      using Cons.IH[of "remaining - ?m"] by simp_all
    have d: "0 \<le> quantity lot - ?m" "quantity lot - ?m \<le> epsilon"
      using popped(2) by simp_all
    have eq: "matchLoop trade p remaining (lot # rest)
              = (matchedEntry trade p lot ?m # fst ?res, snd ?res)"
      using popped by (rule matchLoop_popped)
    define S where "S = sum_list (map quantity rest)"
    define S' where "S' = sum_list (map quantity (snd (snd ?res)))"
    define r' where "r' = fst (snd ?res)"
    define X where "X = epsilon * (of_nat (length rest) - of_nat (length (snd (snd ?res))))"
    have e: "epsilon * (of_nat (length (lot # rest)) - of_nat (length (snd (snd ?res))))
             = epsilon + X"
      unfolding X_def by (simp add: algebra_simps)
    have i2: "0 \<le> S - S' - (remaining - ?m - r')" and i3: "S - S' - (remaining - ?m - r') \<le> X"
      using ih(2,3) unfolding S_def S'_def r'_def X_def by simp_all
    have s: "sum_list (map quantity (lot # rest)) = quantity lot + S"
      unfolding S_def by simp
    have c1: "length (snd (snd ?res)) \<le> length (lot # rest)"
      using ih(1) by simp
    have c2: "0 \<le> quantity lot + S - S' - (remaining - r')"
      using i2 d(1) by linarith
    have c3: "quantity lot + S - S' - (remaining - r') \<le> epsilon + X"
      using i3 d(2) by linarith
    have p1: "fst (snd (matchLoop trade p remaining (lot # rest))) = fst (snd ?res)"
      and p2: "snd (snd (matchLoop trade p remaining (lot # rest))) = snd (snd ?res)"
      by (simp_all add: eq)
    show ?thesis
      unfolding p1 p2 e s using c1 c2 c3 unfolding S'_def r'_def by blast
  qed
qed

lemma plan_balance:
  "(let plan = spec_fifoPlan remaining (map quantity queue); q' = residualQueue queue plan
    in length q' \<le> length queue
       \<and> 0 \<le> sum_list (map quantity queue) - sum_list (map quantity q') - sum_list plan
       \<and> sum_list (map quantity queue) - sum_list (map quantity q') - sum_list plan
           \<le> epsilon * (of_nat (length queue) - of_nat (length q')))"
  using matchLoop_balance[of undefined undefined remaining queue]
  by (simp add: matchLoop_eq Let_def)

lemma matchedBy_plan:
  "matchedBy trade queue = sum_list (spec_fifoPlan (size_t trade) (map quantity queue))"
  by (simp add: matchedBy_def matchLoop_remaining)

lemma entries_per_pass:
  "length (fst (matchLoop trade p remaining queue))
   = length (spec_fifoPlan remaining (map quantity queue))"
  using spec_fifoPlan_length[of remaining "map quantity queue"]
  by (simp add: matchLoop_entries)

lemma queueOf_inv_set_same: "queueOf (inv_set inventory key v) key = v"
  by (simp add: queueOf_def inv_get_inv_set_same)

lemma queueOf_inv_set_other: "k \<noteq> key \<Longrightarrow> queueOf (inv_set inventory key v) k = queueOf inventory k"
  by (simp add: queueOf_def inv_get_inv_set_other)

lemma queueOf_addToInventory:
  "queueOf (addToInventory inventory key trade) k =
     (if k = key then queueOf inventory k @ [newLot trade] else queueOf inventory k)"
  by (simp add: addToInventory_eq queueOf_inv_set_same queueOf_inv_set_other)
     (simp add: queueOf_def)

lemma queueOf_matchSellToBuys:
  "queueOf (snd (snd (matchSellToBuys host inventory key trade))) k =
     (if k = key
      then residualQueue (queueOf inventory k)
             (spec_fifoPlan (size_t trade) (map quantity (queueOf inventory k)))
      else queueOf inventory k)"
proof (cases "inv_get inventory key")
  case None
  then show ?thesis
    by (simp add: matchSellToBuys_def matchLoop_eq Let_def queueOf_def residualQueue_def
        del: jsdiv.simps)
next
  case (Some q)
  then show ?thesis
    by (simp add: matchSellToBuys_def matchLoop_eq Let_def queueOf_inv_set_same
        queueOf_inv_set_other del: jsdiv.simps)
       (simp add: queueOf_def)
qed

text \<open>One trade: what it adds to the balance of a key.\<close>

lemma processTrade_balance:
  fixes st :: EngineState and key :: string and t :: PolymarketTrade
  defines "Q \<equiv> \<lambda>s :: EngineState. sum_list (map quantity (queueOf (fst s) key))"
    and "L \<equiv> \<lambda>s :: EngineState. (of_nat (length (queueOf (fst s) key)) :: rat)"
  defines "b \<equiv> (if side t = BUY \<and> positionKeyOf t = key then size_t t else 0)"
    and "n \<equiv> (if side t = BUY \<and> positionKeyOf t = key then 1 else 0 :: rat)"
    and "m \<equiv> (if side t = SELL \<and> positionKeyOf t = key
               then matchedBy t (queueOf (fst st) key)
               else 0)"
  shows "L (processTrade host st t) \<le> L st + n
         \<and> 0 \<le> (Q st + b) - (Q (processTrade host st t) + m)
         \<and> (Q st + b) - (Q (processTrade host st t) + m)
             \<le> epsilon * (L st + n - L (processTrade host st t))"
proof -
  obtain inventory entries warns where st: "st = (inventory, entries, warns)"
    by (cases st) auto
  consider (buy) "side t = BUY" | (sell) "side t = SELL" | (other) "side t = NoSide"
    by (cases "side t") auto
  then show ?thesis
  proof cases
    case other
    then show ?thesis
      unfolding Q_def L_def b_def n_def m_def by (simp add: st processTrade_def)
  next
    case buy
    then show ?thesis
      unfolding Q_def L_def b_def n_def m_def
      by (simp add: st processTrade_def Let_def queueOf_addToInventory newLot_def)
  next
    case sell
    have inv': "fst (processTrade host st t)
                = snd (snd (matchSellToBuys host inventory (positionKeyOf t) t))"
      using sell by (simp add: st processTrade_def Let_def split: prod.splits)
    show ?thesis
    proof (cases "positionKeyOf t = key")
      case False
      then show ?thesis
        unfolding Q_def L_def b_def n_def m_def inv'
        using sell by (simp add: queueOf_matchSellToBuys st)
    next
      case True
      have "queueOf (fst (processTrade host st t)) key
            = residualQueue (queueOf inventory key)
                (spec_fifoPlan (size_t t) (map quantity (queueOf inventory key)))"
        unfolding inv' using True by (simp add: queueOf_matchSellToBuys)
      then show ?thesis
        unfolding Q_def L_def b_def n_def m_def matchedBy_plan
        using sell True plan_balance[of "size_t t" "queueOf inventory key"]
        by (simp add: st Let_def)
    qed
  qed
qed

lemma foldl_processTrade_balance:
  fixes st :: EngineState and key :: string
  defines "Q \<equiv> \<lambda>s :: EngineState. sum_list (map quantity (queueOf (fst s) key))"
    and "L \<equiv> \<lambda>s :: EngineState. (of_nat (length (queueOf (fst s) key)) :: rat)"
  shows "L (foldl (processTrade host) st ts) \<le> L st + of_nat (length (buysOf key ts))
     \<and> 0 \<le> (Q st + sum_list (map size_t (buysOf key ts)))
            - (Q (foldl (processTrade host) st ts) + matchedQuantity host key st ts)
     \<and> (Q st + sum_list (map size_t (buysOf key ts)))
            - (Q (foldl (processTrade host) st ts) + matchedQuantity host key st ts)
         \<le> epsilon * (L st + of_nat (length (buysOf key ts))
                        - L (foldl (processTrade host) st ts))"
proof (induction ts arbitrary: st)
  case Nil
  show ?case by (simp add: buysOf_def)
next
  case (Cons t ts)
  let ?st1 = "processTrade host st t"
  let ?st' = "foldl (processTrade host) ?st1 ts"
  define b where "b = (if side t = BUY \<and> positionKeyOf t = key then size_t t else 0)"
  define n where "n = (if side t = BUY \<and> positionKeyOf t = key then 1 else 0 :: rat)"
  define m where "m = (if side t = SELL \<and> positionKeyOf t = key
               then matchedBy t (queueOf (fst st) key)
               else 0)"
  define B where "B = sum_list (map size_t (buysOf key ts))"
  define N where "N = (of_nat (length (buysOf key ts)) :: rat)"
  define M where "M = matchedQuantity host key ?st1 ts"
  have s: "L ?st1 \<le> L st + n" "0 \<le> (Q st + b) - (Q ?st1 + m)"
    "(Q st + b) - (Q ?st1 + m) \<le> epsilon * (L st + n - L ?st1)"
    using processTrade_balance[where host = host and st = st and t = t and key = key]
    unfolding Q_def L_def b_def n_def m_def by simp_all
  have i: "L ?st' \<le> L ?st1 + N" "0 \<le> (Q ?st1 + B) - (Q ?st' + M)"
    "(Q ?st1 + B) - (Q ?st' + M) \<le> epsilon * (L ?st1 + N - L ?st')"
    using Cons.IH[of ?st1] unfolding B_def N_def M_def by simp_all
  have e: "epsilon * (L st + n - L ?st1) + epsilon * (L ?st1 + N - L ?st')
           = epsilon * (L st + (n + N) - L ?st')"
    by (simp add: algebra_simps)
  have bs: "sum_list (map size_t (buysOf key (t # ts))) = b + B"
    and ns: "(of_nat (length (buysOf key (t # ts))) :: rat) = n + N"
    and ms: "matchedQuantity host key st (t # ts) = m + M"
    unfolding b_def B_def n_def N_def m_def M_def by (simp_all add: buysOf_def)
  have c1: "L ?st' \<le> L st + (n + N)" using s(1) i(1) by linarith
  have c2: "0 \<le> (Q st + (b + B)) - (Q ?st' + (m + M))" using s(2) i(2) by linarith
  have c3: "(Q st + (b + B)) - (Q ?st' + (m + M)) \<le> epsilon * (L st + (n + N) - L ?st')"
    using s(3) i(3) unfolding e[symmetric] by linarith
  show ?case
    unfolding bs ns ms using c1 c2 c3 by simp
qed

lemma dust_example:
  "warnings (generateTaxReport exHost exDust 2024) = []
   \<and> map (\<lambda>e. (dateAcquired e, proceeds e)) (reportEntries exHost exDust 2024)
       = [(''01/01/2024'', Fin 1), (''01/03/2024'', Fin 1)]
   \<and> sum_list (map size_t (buysOf ''0xabc-Yes'' (normalizeAll exDust))) = 200018 / 100000
   \<and> length (buysOf ''0xabc-Yes'' (normalizeAll exDust)) = 2
   \<and> queueOf (fst (runEngine exHost (normalizeAll exDust))) ''0xabc-Yes'' = []
   \<and> matchedQuantity exHost ''0xabc-Yes'' ([], [], []) (normalizeAll exDust) = 2"
  by code_simp

text \<open>
  C2, as the claim states it, fails: two buys of 1.00009 shares, each followed
  by a sell of one share, leave no open lot and no oversell warning; the
  matched quantities sum to 2 and the BUY quantities to 2.00018, so the balance
  is off by 0.00018, more than epsilon.
\<close>

theorem quantity_balance_counterexample:
  "warnings (generateTaxReport exHost exDust 2024) = []
   \<and> sum_list (map size_t (buysOf ''0xabc-Yes'' (normalizeAll exDust))) = 200018 / 100000
   \<and> sum_list (map quantity (queueOf (fst (runEngine exHost (normalizeAll exDust)))
         ''0xabc-Yes'')) = 0
   \<and> matchedQuantity exHost ''0xabc-Yes'' ([], [], []) (normalizeAll exDust) = 2
   \<and> (200018 / 100000 - (0 + 2) :: rat) > epsilon"
  by code_simp

text \<open>
  C2, amended. For every position key, after all normalized trades are
  processed: the sum of the BUY quantities of the key, minus the sum of the
  remaining quantities of the key's open lots and the quantities that the
  key's SELLs matched against lots (\<open>matchedQuantity\<close>), is what the engine
  discarded with the lots it removed from the queue. Each removed lot discards less than epsilon, so
  the difference is at least 0 and at most epsilon times the number of the
  key's lots that are no longer open. The oversold remainder of a SELL is
  matched against no lot and is not part of the balance, which therefore
  holds with or without an oversell warning.
\<close>

theorem quantity_balance:
  "(let ts = normalizeAll trades;
        opened = queueOf (fst (runEngine host ts)) key;
        bought = sum_list (map size_t (buysOf key ts));
        matched = matchedQuantity host key ([], [], []) ts;
        discarded = bought - (sum_list (map quantity opened) + matched)
    in length opened \<le> length (buysOf key ts)
       \<and> 0 \<le> discarded
       \<and> discarded \<le> epsilon * (of_nat (length (buysOf key ts)) - of_nat (length opened)))"
proof -
  have q0: "queueOf (fst (([], [], []) :: EngineState)) key = []"
    by (simp add: queueOf_def inv_get_def)
  have "(of_nat (length (queueOf (fst (runEngine host (normalizeAll trades))) key)) :: rat)
        \<le> of_nat (length (buysOf key (normalizeAll trades)))"
    using foldl_processTrade_balance[where host = host and st = "([], [], [])" and key = key
        and ts = "normalizeAll trades"]
    unfolding runEngine_def q0 by simp
  then have "length (queueOf (fst (runEngine host (normalizeAll trades))) key)
        \<le> length (buysOf key (normalizeAll trades))"
    by (simp only: of_nat_le_iff)
  then show ?thesis
    using foldl_processTrade_balance[where host = host and st = "([], [], [])" and key = key
        and ts = "normalizeAll trades"]
    unfolding runEngine_def q0 Let_def by (simp add: algebra_simps)
qed

theorem quantity_balance_witness:
  "(let ts = normalizeAll exDust;
        opened = queueOf (fst (runEngine exHost ts)) ''0xabc-Yes'';
        bought = sum_list (map size_t (buysOf ''0xabc-Yes'' ts));
        matched = matchedQuantity exHost ''0xabc-Yes'' ([], [], []) ts;
        discarded = bought - (sum_list (map quantity opened) + matched)
    in length opened \<le> length (buysOf ''0xabc-Yes'' ts)
       \<and> 0 \<le> discarded
       \<and> discarded \<le> epsilon * (of_nat (length (buysOf ''0xabc-Yes'' ts))
                                  - of_nat (length opened)))
   \<and> (warnings (generateTaxReport exHost exDust 2024) = []
   \<and> map (\<lambda>e. (dateAcquired e, proceeds e)) (reportEntries exHost exDust 2024)
       = [(''01/01/2024'', Fin 1), (''01/03/2024'', Fin 1)]
   \<and> sum_list (map size_t (buysOf ''0xabc-Yes'' (normalizeAll exDust))) = 200018 / 100000
   \<and> length (buysOf ''0xabc-Yes'' (normalizeAll exDust)) = 2
   \<and> queueOf (fst (runEngine exHost (normalizeAll exDust))) ''0xabc-Yes'' = []
   \<and> matchedQuantity exHost ''0xabc-Yes'' ([], [], []) (normalizeAll exDust) = 2)"
  by (rule conjI[OF quantity_balance dust_example])

section \<open>C3: overselling\<close>

lemma oversold_queue_empty:
  assumes "remaining - sum_list (spec_fifoPlan remaining (map quantity queue)) > epsilon"
  shows "residualQueue queue (spec_fifoPlan remaining (map quantity queue)) = []"
  using assms matchLoop_exit[of undefined undefined remaining queue]
  by (simp add: matchLoop_eq Let_def)

lemma oversold_size:
  assumes "size_t trade - sum_list (spec_fifoPlan (size_t trade) qs) > epsilon"
  shows "size_t trade > epsilon"
proof (rule ccontr)
  assume "\<not> size_t trade > epsilon"
  then have le: "size_t trade \<le> epsilon" by simp
  then have "spec_fifoPlan (size_t trade) qs = []" by (rule spec_fifoPlan_done)
  then show False using assms le by simp
qed

lemma oversellEntry_fields:
  assumes "size_t trade \<noteq> 0"
  shows "oversellEntry trade (jsdiv (usdcSize trade) (size_t trade)) left =
     \<lparr> description = entryDescription (outcome trade) (title trade),
       dateAcquired = ''VARIOUS'',
       dateSold = formatDate (timestamp trade),
       proceeds = Fin (of_int (math_round (left * (usdcSize trade / size_t trade) * 100)) / 100),
       costBasis = Fin 0,
       gainLoss = Fin (of_int (math_round (left * (usdcSize trade / size_t trade) * 100)) / 100),
       isLongTerm = False,
       holdingDays = 0 \<rparr>"
  using assms by (simp add: oversellEntry_def Let_def)

lemma matchSellToBuys_oversell:
  "(let queue = (case inv_get inventory key of None \<Rightarrow> [] | Some q \<Rightarrow> q);
        p = jsdiv (usdcSize trade) (size_t trade);
        plan = spec_fifoPlan (size_t trade) (map quantity queue);
        left = size_t trade - sum_list plan;
        matched = map (\<lambda>(lot, qty). matchedEntry trade p lot qty) (zip queue plan)
    in case matchSellToBuys host inventory key trade of
         (newEntries, warning, inventory') \<Rightarrow>
           (if left > epsilon
            then residualQueue queue plan = []
               \<and> newEntries = matched @
                   [\<lparr> description = entryDescription (outcome trade) (title trade),
                      dateAcquired = ''VARIOUS'',
                      dateSold = formatDate (timestamp trade),
                      proceeds = Fin (of_int (math_round
                                   (left * (usdcSize trade / size_t trade) * 100)) / 100),
                      costBasis = Fin 0,
                      gainLoss = Fin (of_int (math_round
                                   (left * (usdcSize trade / size_t trade) * 100)) / 100),
                      isLongTerm = False,
                      holdingDays = 0 \<rparr>]
               \<and> warning = Some (''Sold '' @ numberToString host left
                                  @ '' more shares than owned for '' @ key)
            else newEntries = matched \<and> warning = None))"
proof -
  define queue where "queue = (case inv_get inventory key of None \<Rightarrow> [] | Some q \<Rightarrow> q)"
  define plan where "plan = spec_fifoPlan (size_t trade) (map quantity queue)"
  define left where "left = size_t trade - sum_list plan"
  show ?thesis
  proof (cases "left > epsilon")
    case False
    then show ?thesis
      unfolding left_def plan_def queue_def
      by (simp add: matchSellToBuys_def matchLoop_eq Let_def split: option.splits)
  next
    case True
    have nz: "size_t trade \<noteq> 0"
      using oversold_size[of trade "map quantity queue"] True epsilon_pos
      unfolding left_def plan_def by auto
    have empty: "residualQueue queue plan = []"
      using oversold_queue_empty[of "size_t trade" queue] True
      unfolding left_def plan_def by simp
    show ?thesis
      using True empty oversellEntry_fields[OF nz, of left]
      unfolding left_def plan_def queue_def
      by (simp add: matchSellToBuys_def matchLoop_eq Let_def oversellWarning_def
          split: option.splits)
  qed
qed

lemma processTrade_sell_warnings:
  assumes "side trade = SELL"
  shows "snd (snd (processTrade host (inventory, entries, warns) trade)) =
           warns @ (case fst (snd (matchSellToBuys host inventory (positionKeyOf trade) trade)) of
                      None \<Rightarrow> [] | Some w \<Rightarrow> [w])"
  using assms by (simp add: processTrade_def Let_def split: prod.splits option.splits)

text \<open>
  C3, as the claim states it, fails in one point: the proceeds of the
  synthesized entry are not \<open>remaining \<times> unit proceeds\<close> but that product
  rounded to two decimals. Five shares sold for 0.012 USDC from an empty queue
  give proceeds 0.01.
\<close>

theorem oversell_proceeds_counterexample:
  "(case matchSellToBuys exHost [] (positionKeyOf exTiny) exTiny of
      (newEntries, warning, inventory') \<Rightarrow>
        map (\<lambda>e. (dateAcquired e, proceeds e)) newEntries = [(''VARIOUS'', Fin (1 / 100))])
   \<and> jsmul (Fin (size_t exTiny - sum_list (spec_fifoPlan (size_t exTiny) [])))
         (jsdiv (usdcSize exTiny) (size_t exTiny)) = Fin (3 / 250)
   \<and> Fin (1 / 100) \<noteq> Fin (3 / 250)"
  by code_simp

text \<open>
  C3, amended. With \<open>left\<close> the quantity of a SELL that remains after the loop:
  if \<open>left\<close> exceeds epsilon, the key's queue is empty, and \<open>matchSellToBuys\<close>
  returns the matched entries followed by exactly one more entry, with cost
  basis 0, dateAcquired \<open>VARIOUS\<close>, proceeds \<open>left \<times> unit proceeds\<close> rounded to
  two decimals, gainLoss equal to the proceeds, isLongTerm false and
  holdingDays 0, together with one warning that names the oversold quantity and
  the position key; otherwise it returns the matched entries only, and no
  warning. It returns in both cases (nothing is raised), and the engine adds
  to its warnings that warning and nothing else.
\<close>

theorem oversell_policy:
  "(let queue = (case inv_get inventory key of None \<Rightarrow> [] | Some q \<Rightarrow> q);
        p = jsdiv (usdcSize trade) (size_t trade);
        plan = spec_fifoPlan (size_t trade) (map quantity queue);
        left = size_t trade - sum_list plan;
        matched = map (\<lambda>(lot, qty). matchedEntry trade p lot qty) (zip queue plan)
    in case matchSellToBuys host inventory key trade of
         (newEntries, warning, inventory') \<Rightarrow>
           (if left > epsilon
            then residualQueue queue plan = []
               \<and> newEntries = matched @
                   [\<lparr> description = entryDescription (outcome trade) (title trade),
                      dateAcquired = ''VARIOUS'',
                      dateSold = formatDate (timestamp trade),
                      proceeds = Fin (of_int (math_round
                                   (left * (usdcSize trade / size_t trade) * 100)) / 100),
                      costBasis = Fin 0,
                      gainLoss = Fin (of_int (math_round
                                   (left * (usdcSize trade / size_t trade) * 100)) / 100),
                      isLongTerm = False,
                      holdingDays = 0 \<rparr>]
               \<and> warning = Some (''Sold '' @ numberToString host left
                                  @ '' more shares than owned for '' @ key)
            else newEntries = matched \<and> warning = None))
   \<and> (side trade = SELL \<longrightarrow>
        snd (snd (processTrade host (inventory, entries, warns) trade)) =
          warns @ (case fst (snd (matchSellToBuys host inventory (positionKeyOf trade) trade)) of
                     None \<Rightarrow> [] | Some w \<Rightarrow> [w]))"
  using matchSellToBuys_oversell[of inventory key trade host]
    processTrade_sell_warnings[of trade host inventory entries warns]
  by blast

theorem oversell_policy_witness:
  "side exTiny = SELL
   \<and> size_t exTiny - sum_list (spec_fifoPlan (size_t exTiny) (map quantity [])) > epsilon
   \<and> matchSellToBuys exHost [] (positionKeyOf exTiny) exTiny =
       ([\<lparr> description = entryDescription (outcome exTiny) (title exTiny),
           dateAcquired = ''VARIOUS'',
           dateSold = formatDate (timestamp exTiny),
           proceeds = Fin (1 / 100),
           costBasis = Fin 0,
           gainLoss = Fin (1 / 100),
           isLongTerm = False,
           holdingDays = 0 \<rparr>],
        Some ''Sold 5 more shares than owned for 0xabc-Yes'', [])
   \<and> snd (snd (processTrade exHost ([], [], []) exTiny)) =
       [''Sold 5 more shares than owned for 0xabc-Yes'']"
proof -
  have s: "side exTiny = SELL"
    by code_simp
  have l: "size_t exTiny - sum_list (spec_fifoPlan (size_t exTiny) (map quantity [])) > epsilon"
    by code_simp
  have m: "matchSellToBuys exHost [] (positionKeyOf exTiny) exTiny =
       ([\<lparr> description = entryDescription (outcome exTiny) (title exTiny),
           dateAcquired = ''VARIOUS'',
           dateSold = formatDate (timestamp exTiny),
           proceeds = Fin (1 / 100),
           costBasis = Fin 0,
           gainLoss = Fin (1 / 100),
           isLongTerm = False,
           holdingDays = 0 \<rparr>],
        Some ''Sold 5 more shares than owned for 0xabc-Yes'', [])"
    by code_simp
  have "snd (snd (processTrade exHost ([], [], []) exTiny)) =
          [] @ (case fst (snd (matchSellToBuys exHost [] (positionKeyOf exTiny) exTiny)) of
                     None \<Rightarrow> [] | Some w \<Rightarrow> [w])"
    using oversell_policy[of "[]" "positionKeyOf exTiny" exTiny exHost "[]" "[]"] s by blast
  then have "snd (snd (processTrade exHost ([], [], []) exTiny)) =
       [''Sold 5 more shares than owned for 0xabc-Yes'']"
    unfolding m by simp
  then show ?thesis using s l m by blast
qed

section \<open>C4: worthless positions\<close>




section \<open>C5: gain and loss of an entry\<close>







section \<open>C6: summaries\<close>

lemma sumBy_foldl_cents:
  "list_all (\<lambda>e. isCents (f e)) es \<Longrightarrow>
   foldl (\<lambda>sum item. jsadd sum (jsor (f item) (Fin 0))) (Fin a) es
     = Fin (a + sum_list (map (\<lambda>e. valueOrZero (f e)) es))"
proof (induction es arbitrary: a)
  case Nil
  show ?case by simp
next
  case (Cons e es)
  have "isCents (f e)" using Cons.prems by simp
  then have "jsor (f e) (Fin 0) = Fin (valueOrZero (f e))"
    by (cases "f e") (simp_all add: jsor_def)
  then show ?case
    using Cons.IH[of "a + valueOrZero (f e)"] Cons.prems by (simp add: add.assoc)
qed

lemma sum_cents:
  "list_all (\<lambda>e. isCents (f e)) es \<Longrightarrow>
   isCents (Fin (sum_list (map (\<lambda>e. valueOrZero (f e)) es)))"
proof (induction es)
  case Nil
  have "isCents (Fin (of_int 0 / 100))" unfolding isCents_Fin_iff by blast
  then show ?case by simp
next
  case (Cons e es)
  have "isCents (Fin (valueOrZero (f e)))"
  proof (cases "f e")
    case (Fin r)
    then show ?thesis using Cons.prems by simp
  next
    case NaN
    have "isCents (Fin (of_int 0 / 100))" unfolding isCents_Fin_iff by blast
    then show ?thesis using NaN by simp
  qed (use Cons.prems in simp_all)
  then show ?case using Cons isCents_add by simp
qed

lemma round2_sumBy:
  assumes "list_all (\<lambda>e. isCents (f e)) es"
  shows "round2 (sumBy es f)
         = Fin (spec_roundHalfAway2 (sum_list (map (\<lambda>e. valueOrZero (f e)) es)))"
proof -
  have s: "sumBy es f = Fin (sum_list (map (\<lambda>e. valueOrZero (f e)) es))"
    unfolding sumBy_def using sumBy_foldl_cents[OF assms, of 0] by simp
  show ?thesis
    unfolding s using sum_cents[OF assms]
    by (simp only: round2_cents roundHalfAway2_cents)
qed

lemma calculateSummary_cents:
  assumes "list_all entryCents es"
  shows "calculateSummary es =
     \<lparr> count_s = length es,
       totalProceeds = Fin (spec_roundHalfAway2 (sum_list (map (\<lambda>e. valueOrZero (proceeds e)) es))),
       totalCostBasis_sum =
         Fin (spec_roundHalfAway2 (sum_list (map (\<lambda>e. valueOrZero (costBasis e)) es))),
       totalGainLoss_sum =
         Fin (spec_roundHalfAway2 (sum_list (map (\<lambda>e. valueOrZero (gainLoss e)) es))) \<rparr>"
proof -
  have "list_all (\<lambda>e. isCents (proceeds e)) es" "list_all (\<lambda>e. isCents (costBasis e)) es"
    "list_all (\<lambda>e. isCents (gainLoss e)) es"
    using assms by (simp_all add: list_all_iff entryCents_def)
  then show ?thesis
    by (simp add: calculateSummary_def round2_sumBy del: round2.simps)
qed

lemma sum_list_partition:
  fixes f :: "'a \<Rightarrow> rat"
  shows "sum_list (map f (filter (\<lambda>e. \<not> P e) es)) + sum_list (map f (filter P es))
         = sum_list (map f es)"
  by (induction es) simp_all

lemma reportEntries_cents: "list_all entryCents (reportEntries host trades taxYear)"
  using reportEntries_ok[of host trades taxYear] by (simp add: list_all_iff entryOk_def)

text \<open>
  C6, as the claim states it, fails when a field is NaN: after a buy of
  quantity zero and a sell of one share the short-term entries have gains NaN
  and 1, whose sum is NaN, and the summary's \<open>totalGainLoss\<close> is 1.
\<close>

theorem summary_nan_counterexample:
  "map (\<lambda>e. (proceeds e, costBasis e, gainLoss e))
     (shortTerm (generateTaxReport exHost [exZeroBuy, exSell1] 2024))
     = [(Fin 0, NaN, NaN), (Fin 1, Fin 0, Fin 1)]
   \<and> totalGainLoss_sum (shortTermSummary (generateTaxReport exHost [exZeroBuy, exSell1] 2024))
       = Fin 1
   \<and> round2 (foldl jsadd (Fin 0)
        (map gainLoss (shortTerm (generateTaxReport exHost [exZeroBuy, exSell1] 2024)))) = NaN
   \<and> NaN \<noteq> Fin 1"
  by code_simp

text \<open>
  C6, amended. For each partition the summary holds the number of its entries
  and, for proceeds, cost basis and gain or loss, the sum of the partition's
  fields, a NaN field counting as zero, rounded to two decimals half away from
  zero; \<open>totalTransactions\<close> is the number of short-term plus long-term
  entries; and the grand \<open>totalGainLoss\<close> is \<open>round(sumBy(entries))\<close> over all
  entries, computed on its own, which is the sum of the gains and losses of
  all entries (NaN as zero) rounded in the same way. Every stored field of
  every entry is a whole number of cents or NaN.
\<close>

theorem summary_totals:
  "(let r = generateTaxReport host trades taxYear;
        total = (\<lambda>es f. Fin (spec_roundHalfAway2
                   (sum_list (map (\<lambda>e. valueOrZero (f e)) es))))
    in shortTermSummary r =
         \<lparr> count_s = length (shortTerm r),
           totalProceeds = total (shortTerm r) proceeds,
           totalCostBasis_sum = total (shortTerm r) costBasis,
           totalGainLoss_sum = total (shortTerm r) gainLoss \<rparr>
       \<and> longTermSummary r =
         \<lparr> count_s = length (longTerm r),
           totalProceeds = total (longTerm r) proceeds,
           totalCostBasis_sum = total (longTerm r) costBasis,
           totalGainLoss_sum = total (longTerm r) gainLoss \<rparr>
       \<and> totalTransactions r = length (shortTerm r) + length (longTerm r)
       \<and> totalGainLoss r = round2 (sumBy (reportEntries host trades taxYear) gainLoss)
       \<and> totalGainLoss r = total (shortTerm r @ longTerm r) gainLoss
       \<and> list_all entryCents (shortTerm r @ longTerm r))"
proof -
  let ?es = "reportEntries host trades taxYear"
  let ?st = "filter (\<lambda>e. \<not> isLongTerm e) ?es"
  let ?lt = "filter isLongTerm ?es"
  have c: "list_all entryCents ?es" by (rule reportEntries_cents)
  then have cs: "list_all entryCents ?st" and cl: "list_all entryCents ?lt"
    by (simp_all add: list_all_iff)
  have g: "list_all (\<lambda>e. isCents (gainLoss e)) ?es"
    using c by (simp add: list_all_iff entryCents_def)
  have len: "length ?es = length ?st + length ?lt"
    using sum_length_filter_compl[of isLongTerm ?es] by simp
  have tot: "sum_list (map (\<lambda>e. valueOrZero (gainLoss e)) (?st @ ?lt))
             = sum_list (map (\<lambda>e. valueOrZero (gainLoss e)) ?es)"
    using sum_list_partition[of "\<lambda>e. valueOrZero (gainLoss e)" isLongTerm ?es] by simp
  have all: "list_all entryCents (?st @ ?lt)"
    using cs cl by simp
  show ?thesis
    unfolding Let_def generateTaxReport_eq
    using calculateSummary_cents[OF cs] calculateSummary_cents[OF cl] len
      round2_sumBy[OF g] tot all
    by (simp del: round2.simps)
qed

lemma summary_example:
  "shortTermSummary (generateTaxReport exHost [exB1, exB2, exS] 2024) =
     \<lparr> count_s = 2, totalProceeds = Fin 36, totalCostBasis_sum = Fin 14,
       totalGainLoss_sum = Fin 22 \<rparr>
   \<and> totalTransactions (generateTaxReport exHost [exB1, exB2, exS] 2024) = 2
   \<and> totalGainLoss (generateTaxReport exHost [exB1, exB2, exS] 2024) = Fin 22"
  by code_simp

theorem summary_totals_witness:
  "(let r = generateTaxReport exHost [exB1, exB2, exS] 2024;
        total = (\<lambda>es f. Fin (spec_roundHalfAway2
                   (sum_list (map (\<lambda>e. valueOrZero (f e)) es))))
    in shortTermSummary r =
         \<lparr> count_s = length (shortTerm r),
           totalProceeds = total (shortTerm r) proceeds,
           totalCostBasis_sum = total (shortTerm r) costBasis,
           totalGainLoss_sum = total (shortTerm r) gainLoss \<rparr>
       \<and> longTermSummary r =
         \<lparr> count_s = length (longTerm r),
           totalProceeds = total (longTerm r) proceeds,
           totalCostBasis_sum = total (longTerm r) costBasis,
           totalGainLoss_sum = total (longTerm r) gainLoss \<rparr>
       \<and> totalTransactions r = length (shortTerm r) + length (longTerm r)
       \<and> totalGainLoss r = round2 (sumBy (reportEntries exHost [exB1, exB2, exS] 2024) gainLoss)
       \<and> totalGainLoss r = total (shortTerm r @ longTerm r) gainLoss
       \<and> list_all entryCents (shortTerm r @ longTerm r))
   \<and> (shortTermSummary (generateTaxReport exHost [exB1, exB2, exS] 2024) =
       \<lparr> count_s = 2, totalProceeds = Fin 36, totalCostBasis_sum = Fin 14,
         totalGainLoss_sum = Fin 22 \<rparr>
     \<and> totalTransactions (generateTaxReport exHost [exB1, exB2, exS] 2024) = 2
     \<and> totalGainLoss (generateTaxReport exHost [exB1, exB2, exS] 2024) = Fin 22)"
  by (rule conjI[OF summary_totals summary_example])

section \<open>C7: trades of quantity zero\<close>

lemma matchSellToBuys_small:
  assumes "size_t trade \<le> epsilon"
  shows "matchSellToBuys host inventory key trade = ([], None, inventory)"
proof -
  have p: "spec_fifoPlan (size_t trade) qs = []" for qs
    using assms by (rule spec_fifoPlan_done)
  show ?thesis
    using assms
    by (simp add: matchSellToBuys_def matchLoop_eq Let_def p inv_get_def inv_set_same
        split: option.splits del: jsdiv.simps)
qed

lemma normalizeTrade_None:
  "(normalizeTrade trade = None) = (conditionId trade = [] \<or> outcome trade = [])"
  by (simp add: normalizeTrade_def)

lemma normalizeTrade_size: "normalizeTrade trade = Some t \<Longrightarrow> size_t t = size_t trade"
  by (auto simp: normalizeTrade_def split: if_splits)

text \<open>
  C7, as the claim states it, fails: normalization keeps a buy of quantity
  zero, the engine receives it, and the lot it stores has unit cost \<open>0 / 0\<close>,
  that is NaN.
\<close>

theorem zero_quantity_counterexample:
  "size_t exZeroBuy = 0
   \<and> map size_t (normalizeAll [exZeroBuy]) = [0]
   \<and> map (\<lambda>(k, q). map (\<lambda>l. (quantity l, costBasisPerToken l)) q)
       (fst (runEngine exHost (normalizeAll [exZeroBuy]))) = [[(0, NaN)]]
   \<and> \<not> isFin NaN"
  by code_simp

text \<open>
  C7, amended. Normalization drops a record exactly when its conditionId or
  its outcome is empty, and keeps the quantity of every other record, zero
  included. A BUY of nonzero quantity stores a finite unit cost, and a trade
  of nonzero quantity has finite unit proceeds. A BUY of quantity zero stores
  a lot of quantity 0 whose unit cost is not finite. A SELL whose quantity is
  at most epsilon, zero included, gives no entry and no warning and leaves the
  inventory as it is, so its unit proceeds are never used.
\<close>

theorem zero_quantity_trades:
  "((normalizeTrade trade = None) = (conditionId trade = [] \<or> outcome trade = []))
   \<and> (\<forall>t. normalizeTrade trade = Some t \<longrightarrow> size_t t = size_t trade)
   \<and> (size_t trade \<noteq> 0 \<longrightarrow>
        isFin (costBasisPerToken (newLot trade))
        \<and> isFin (jsdiv (usdcSize trade) (size_t trade)))
   \<and> (size_t trade = 0 \<longrightarrow>
        \<not> isFin (costBasisPerToken (newLot trade)) \<and> quantity (newLot trade) = 0)
   \<and> (size_t trade \<le> epsilon \<longrightarrow>
        matchSellToBuys host inventory key trade = ([], None, inventory))"
  using normalizeTrade_None[of trade] normalizeTrade_size[of trade]
    matchSellToBuys_small[of trade host inventory key]
  by (simp add: newLot_def)

theorem zero_quantity_trades_witness:
  "normalizeTrade exZeroBuy = Some (exZeroBuy\<lparr>price := NaN\<rparr>)
   \<and> size_t (exZeroBuy\<lparr>price := NaN\<rparr>) = size_t exZeroBuy
   \<and> size_t exB1 \<noteq> 0
   \<and> isFin (costBasisPerToken (newLot exB1))
   \<and> isFin (jsdiv (usdcSize exB1) (size_t exB1))
   \<and> size_t exZeroBuy = 0
   \<and> \<not> isFin (costBasisPerToken (newLot exZeroBuy))
   \<and> quantity (newLot exZeroBuy) = 0
   \<and> size_t (exZeroBuy\<lparr>side := SELL\<rparr>) \<le> epsilon
   \<and> matchSellToBuys exHost [(''0xabc-Yes'', [newLot exB1])] ''0xabc-Yes''
        (exZeroBuy\<lparr>side := SELL\<rparr>) = ([], None, [(''0xabc-Yes'', [newLot exB1])])"
proof -
  have n: "normalizeTrade exZeroBuy = Some (exZeroBuy\<lparr>price := NaN\<rparr>)"
    by code_simp
  have a: "size_t exB1 \<noteq> 0"
    by code_simp
  have z: "size_t exZeroBuy = 0"
    by code_simp
  have s: "size_t (exZeroBuy\<lparr>side := SELL\<rparr>) \<le> epsilon"
    by code_simp
  have "size_t (exZeroBuy\<lparr>price := NaN\<rparr>) = size_t exZeroBuy"
    using zero_quantity_trades[of exZeroBuy exHost "[]" "[]"] n by blast
  moreover have "isFin (costBasisPerToken (newLot exB1))
      \<and> isFin (jsdiv (usdcSize exB1) (size_t exB1))"
    using zero_quantity_trades[of exB1 exHost "[]" "[]"] a by blast
  moreover have "\<not> isFin (costBasisPerToken (newLot exZeroBuy)) \<and> quantity (newLot exZeroBuy) = 0"
    using zero_quantity_trades[of exZeroBuy exHost "[]" "[]"] z by blast
  moreover have "matchSellToBuys exHost [(''0xabc-Yes'', [newLot exB1])] ''0xabc-Yes''
        (exZeroBuy\<lparr>side := SELL\<rparr>) = ([], None, [(''0xabc-Yes'', [newLot exB1])])"
    using zero_quantity_trades[of "exZeroBuy\<lparr>side := SELL\<rparr>" exHost
        "[(''0xabc-Yes'', [newLot exB1])]" "''0xabc-Yes''"] s by blast
  ultimately show ?thesis using n a z s by blast
qed

section \<open>C8: the order of the input\<close>

lemma mset_map_filter:
  "mset xs = mset ys \<Longrightarrow> mset (List.map_filter f xs) = mset (List.map_filter f ys)"
proof -
  assume "mset xs = mset ys"
  then have "image_mset (the \<circ> f) (filter_mset (\<lambda>x. f x \<noteq> None) (mset xs))
           = image_mset (the \<circ> f) (filter_mset (\<lambda>x. f x \<noteq> None) (mset ys))"
    by simp
  then show ?thesis
    by (simp add: List.map_filter_def)
qed

lemma normalizeAll_perm:
  assumes "mset trades1 = mset trades2"
    and "distinct (map timestamp (normalizeAll trades1))"
  shows "normalizeAll trades1 = normalizeAll trades2"
proof -
  let ?xs = "List.map_filter normalizeTrade trades1"
  let ?ys = "List.map_filter normalizeTrade trades2"
  have m: "mset ?xs = mset (sort_key timestamp ?ys)"
    using mset_map_filter[OF assms(1), of normalizeTrade] by simp
  have "inj_on timestamp (set (sort_key timestamp ?xs))"
    using assms(2) unfolding normalizeAll_def by (simp only: distinct_map)
  then have i: "inj_on timestamp (set ?xs)" by simp
  have s: "sorted (map timestamp (sort_key timestamp ?ys))" by simp
  show ?thesis
    unfolding normalizeAll_def by (rule sort_key_inj_key_eq[OF m i s])
qed

lemma tied_reports:
  "totalGainLoss (generateTaxReport exHost [exB1, exB2t, exS] 2024) = Fin 22
   \<and> totalGainLoss (generateTaxReport exHost [exB2t, exB1, exS] 2024) = Fin 14"
  by code_simp

text \<open>
  C8, as the claim states it, fails: B1 and B2 bought in the same second, in
  the two orders, are two permutations of one multiset of trades, and the sell
  of 12 is matched against whichever came first in the input.
\<close>

theorem report_order_counterexample:
  "mset [exB1, exB2t, exS] = mset [exB2t, exB1, exS]
   \<and> generateTaxReport exHost [exB1, exB2t, exS] 2024
       \<noteq> generateTaxReport exHost [exB2t, exB1, exS] 2024"
proof -
  have "generateTaxReport exHost [exB1, exB2t, exS] 2024
        \<noteq> generateTaxReport exHost [exB2t, exB1, exS] 2024"
  proof
    assume "generateTaxReport exHost [exB1, exB2t, exS] 2024
            = generateTaxReport exHost [exB2t, exB1, exS] 2024"
    then have "totalGainLoss (generateTaxReport exHost [exB1, exB2t, exS] 2024)
               = totalGainLoss (generateTaxReport exHost [exB2t, exB1, exS] 2024)"
      by simp
    then show False using tied_reports by simp
  qed
  then show ?thesis by simp
qed

text \<open>
  C8, amended. The report is a function of the host, the trades and the tax
  year. Two inputs that are permutations of each other give the same report
  when the normalized trades have pairwise distinct timestamps: the sort then
  puts them in one order whatever the input order was.
\<close>

theorem report_order_independent:
  assumes "mset trades1 = mset trades2"
    and "distinct (map timestamp (normalizeAll trades1))"
  shows "generateTaxReport host trades1 taxYear = generateTaxReport host trades2 taxYear"
  using normalizeAll_perm[OF assms] by (simp add: generateTaxReport_def)

theorem report_order_independent_witness:
  "mset [exB1, exB2, exS] = mset [exS, exB2, exB1]
   \<and> distinct (map timestamp (normalizeAll [exB1, exB2, exS]))
   \<and> generateTaxReport exHost [exB1, exB2, exS] 2024
       = generateTaxReport exHost [exS, exB2, exB1] 2024"
proof -
  have m: "mset [exB1, exB2, exS] = mset [exS, exB2, exB1]"
    by simp
  have d: "distinct (map timestamp (normalizeAll [exB1, exB2, exS]))"
    by code_simp
  show ?thesis
    using m d report_order_independent[OF m d, of exHost 2024] by blast
qed

section \<open>C9: the cost basis of an open position\<close>

text \<open>
  C9. An open position lists the lots of its key, its quantity is the sum of
  their remaining quantities and its title is that of the first lot, as the
  claim says. Its \<open>costBasis\<close>, however, is the sum of \<open>totalCostBasis\<close>, the
  cost of each lot as it was bought, which \<open>matchSellToBuys\<close> never decrements.
  After B1, B2 and the sell of 12 the open position holds the 8 units left of
  B2 at unit cost 2.0 (remaining cost basis 16), and reports \<open>costBasis = 20\<close>.
\<close>

theorem open_position_cost_basis:
  "posQuantity (openPositionOf key ls) = sum_list (map quantity ls)
   \<and> posCostBasis (openPositionOf key ls) = sum_list (map totalCostBasis ls)
   \<and> lots (openPositionOf key ls) = ls
   \<and> posTitle (openPositionOf key ls) = marketTitle (hd ls)
   \<and> map (\<lambda>p. (posQuantity p, posCostBasis p,
                map (\<lambda>l. (quantity l, costBasisPerToken l,
                           jsmul (Fin (quantity l)) (costBasisPerToken l))) (lots p)))
       (openPositions (generateTaxReport exHost [exB1, exB2, exS] 2024))
     = [(8, 20, [(8, Fin 2, Fin 16)])]"
  using cost_basis_example by (simp add: openPositionOf_def Let_def sumByRat_eq)

section \<open>C10: position keys\<close>

lemma collision_example:
  "positionKeyOf exC1 = positionKeyOf exC2
   \<and> (conditionId exC1, outcome exC1) \<noteq> (conditionId exC2, outcome exC2)
   \<and> map (\<lambda>(k, q). (k, map quantity q)) (fst (runEngine host [exC1, exC2]))
       = [(''a-b-c'', [5, 7])]"
  by code_simp

text \<open>
  C10. The position key is \<open>conditionId + "-" + outcome\<close>, and
  \<open>collectOpenPositions\<close> decodes it by splitting at the first \<open>-\<close>. For a
  trade whose conditionId has no \<open>-\<close>, every open position under the trade's
  key reports the trade's conditionId and outcome. When the conditionId has a
  \<open>-\<close>, the reported conditionId is a strict prefix of it. Distinct pairs can
  share a key: (\<open>a-b\<close>, \<open>c\<close>) and (\<open>a\<close>, \<open>b-c\<close>) both give \<open>a-b-c\<close>, and
  their buys end in one queue.
\<close>

theorem position_key_decoding:
  "(CHR ''-'' \<notin> set (conditionId trade) \<longrightarrow>
      (\<forall>p \<in> set (collectOpenPositions inventory).
         positionKey p = positionKeyOf trade \<longrightarrow>
         posConditionId p = conditionId trade \<and> posOutcome p = outcome trade))
   \<and> (CHR ''-'' \<in> set (conditionId trade) \<longrightarrow>
      (\<forall>p \<in> set (collectOpenPositions inventory).
         positionKey p = positionKeyOf trade \<longrightarrow>
         strict_prefix (posConditionId p) (conditionId trade)))
   \<and> (positionKeyOf exC1 = positionKeyOf exC2
      \<and> (conditionId exC1, outcome exC1) \<noteq> (conditionId exC2, outcome exC2)
      \<and> map (\<lambda>(k, q). (k, map quantity q)) (fst (runEngine host [exC1, exC2]))
          = [(''a-b-c'', [5, 7])])"
proof (intro conjI impI ballI)
  fix p
  assume nodash: "CHR ''-'' \<notin> set (conditionId trade)"
    and p: "p \<in> set (collectOpenPositions inventory)"
    and k: "positionKey p = positionKeyOf trade"
  obtain key ls where pe: "p = openPositionOf key ls"
    using collectOpenPositions_set[OF p] by blast
  have key: "key = conditionId trade @ ''-'' @ outcome trade"
    using k pe by (simp add: openPositionOf_key positionKeyOf_def)
  show "posConditionId p = conditionId trade"
    using decode_roundtrip(1)[OF nodash, of "outcome trade"]
    by (simp add: pe key openPositionOf_def Let_def)
  show "posOutcome p = outcome trade"
    using decode_roundtrip(2)[OF nodash, of "outcome trade"]
    by (simp add: pe key openPositionOf_def Let_def)
next
  fix p
  assume dash: "CHR ''-'' \<in> set (conditionId trade)"
    and p: "p \<in> set (collectOpenPositions inventory)"
    and k: "positionKey p = positionKeyOf trade"
  obtain key ls where pe: "p = openPositionOf key ls"
    using collectOpenPositions_set[OF p] by blast
  have key: "key = conditionId trade @ ''-'' @ outcome trade"
    using k pe by (simp add: openPositionOf_key positionKeyOf_def)
  show "strict_prefix (posConditionId p) (conditionId trade)"
    using decode_prefix[OF dash, of "outcome trade"]
    by (simp add: pe key openPositionOf_def Let_def)
qed (use collision_example[of host] in simp_all)

theorem position_key_decoding_witness:
  "collectOpenPositions (fst (runEngine exHost [exB1])) = [openPositionOf ''0xabc-Yes'' [newLot exB1]]
   \<and> posConditionId (openPositionOf ''0xabc-Yes'' [newLot exB1]) = ''0xabc''
   \<and> posOutcome (openPositionOf ''0xabc-Yes'' [newLot exB1]) = ''Yes''
   \<and> collectOpenPositions (fst (runEngine exHost [exC1])) = [openPositionOf ''a-b-c'' [newLot exC1]]
   \<and> strict_prefix (posConditionId (openPositionOf ''a-b-c'' [newLot exC1])) ''a-b''"
proof -
  have c1: "collectOpenPositions (fst (runEngine exHost [exB1])) = [openPositionOf ''0xabc-Yes'' [newLot exB1]]"
    by code_simp
  have c2: "collectOpenPositions (fst (runEngine exHost [exC1])) = [openPositionOf ''a-b-c'' [newLot exC1]]"
    by code_simp
  have n1: "CHR ''-'' \<notin> set (conditionId exB1)"
    by code_simp
  have n2: "CHR ''-'' \<in> set (conditionId exC1)"
    by code_simp
  have k1: "positionKey (openPositionOf ''0xabc-Yes'' [newLot exB1]) = positionKeyOf exB1"
    by code_simp
  have k2: "positionKey (openPositionOf ''a-b-c'' [newLot exC1]) = positionKeyOf exC1"
    by code_simp
  have i1: "conditionId exB1 = ''0xabc'' \<and> outcome exB1 = ''Yes''"
    by code_simp
  have i2: "conditionId exC1 = ''a-b''"
    by code_simp
  have m1: "openPositionOf ''0xabc-Yes'' [newLot exB1] \<in> set (collectOpenPositions (fst (runEngine exHost [exB1])))"
    unfolding c1 by simp
  have m2: "openPositionOf ''a-b-c'' [newLot exC1] \<in> set (collectOpenPositions (fst (runEngine exHost [exC1])))"
    unfolding c2 by simp
  have r1: "posConditionId (openPositionOf ''0xabc-Yes'' [newLot exB1]) = conditionId exB1
            \<and> posOutcome (openPositionOf ''0xabc-Yes'' [newLot exB1]) = outcome exB1"
    using position_key_decoding[of exB1 "fst (runEngine exHost [exB1])" exHost] n1 m1 k1 by blast
  have r2: "strict_prefix (posConditionId (openPositionOf ''a-b-c'' [newLot exC1])) (conditionId exC1)"
    using position_key_decoding[of exC1 "fst (runEngine exHost [exC1])" exHost] n2 m2 k2 by blast
  show ?thesis
    using c1 c2 r1 r2 i1 i2 by simp
qed

end
